theory Spec2Isabelle
  imports Complex_Main "HOL-Library.Char_ord" "HOL-Library.List_Lexorder"
begin

section \<open>Python values and string operations used by the engine\<close>

text \<open>
  File names and file texts are \<^typ>\<open>string\<close>s. A \<^typ>\<open>char\<close> is read as the character
  with that code point (0 to 255), so the digits are \<open>0\<close> to \<open>9\<close>, the whitespace
  characters are those for which Python's \<open>str.isspace\<close> holds in that range, and
  \<open>str.lower\<close> maps \<open>A\<close> to \<open>Z\<close> and the upper-case letters of the range 0xC0 to 0xDE.
\<close>

definition isdigit :: "char \<Rightarrow> bool" where
  "isdigit c = (CHR ''0'' \<le> c \<and> c \<le> CHR ''9'')"

definition isspace :: "char \<Rightarrow> bool" where
  "isspace c = (c \<in> set [CHR 0x09, CHR 0x0A, CHR 0x0B, CHR 0x0C, CHR 0x0D,
                          CHR 0x1C, CHR 0x1D, CHR 0x1E, CHR 0x1F, CHR 0x20, CHR 0x85, CHR 0xA0])"

definition strip :: "string \<Rightarrow> string" where
  "strip s = rev (dropWhile isspace (rev (dropWhile isspace s)))"

definition upper_chars :: "char list" where
  "upper_chars = ''ABCDEFGHIJKLMNOPQRSTUVWXYZ'' @
     [CHR 0xC0, CHR 0xC1, CHR 0xC2, CHR 0xC3, CHR 0xC4, CHR 0xC5, CHR 0xC6, CHR 0xC7,
      CHR 0xC8, CHR 0xC9, CHR 0xCA, CHR 0xCB, CHR 0xCC, CHR 0xCD, CHR 0xCE, CHR 0xCF,
      CHR 0xD0, CHR 0xD1, CHR 0xD2, CHR 0xD3, CHR 0xD4, CHR 0xD5, CHR 0xD6,
      CHR 0xD8, CHR 0xD9, CHR 0xDA, CHR 0xDB, CHR 0xDC, CHR 0xDD, CHR 0xDE]"

definition lower_chars :: "char list" where
  "lower_chars = ''abcdefghijklmnopqrstuvwxyz'' @
     [CHR 0xE0, CHR 0xE1, CHR 0xE2, CHR 0xE3, CHR 0xE4, CHR 0xE5, CHR 0xE6, CHR 0xE7,
      CHR 0xE8, CHR 0xE9, CHR 0xEA, CHR 0xEB, CHR 0xEC, CHR 0xED, CHR 0xEE, CHR 0xEF,
      CHR 0xF0, CHR 0xF1, CHR 0xF2, CHR 0xF3, CHR 0xF4, CHR 0xF5, CHR 0xF6,
      CHR 0xF8, CHR 0xF9, CHR 0xFA, CHR 0xFB, CHR 0xFC, CHR 0xFD, CHR 0xFE]"

definition lower_char :: "char \<Rightarrow> char" where
  "lower_char c = (case map_of (zip upper_chars lower_chars) c of Some d \<Rightarrow> d | None \<Rightarrow> c)"

definition lower :: "string \<Rightarrow> string" where
  "lower s = map lower_char s"

definition endswith :: "string \<Rightarrow> string \<Rightarrow> bool" where
  "endswith s suffix = (length suffix \<le> length s \<and> drop (length s - length suffix) s = suffix)"

text \<open>\<open>s.endswith(t)\<close> for a tuple \<open>t\<close> of suffixes.\<close>

definition endswith_any :: "string \<Rightarrow> string list \<Rightarrow> bool" where
  "endswith_any s suffixes = list_ex (endswith s) suffixes"

text \<open>\<open>s.replace(a, b)\<close> for single characters \<open>a\<close> and \<open>b\<close>.\<close>

definition replace_char :: "char \<Rightarrow> char \<Rightarrow> string \<Rightarrow> string" where
  "replace_char a b s = map (\<lambda>c. if c = a then b else c) s"

text \<open>\<open>int(s)\<close> for a string of digits, read from the left.\<close>

definition digit_value :: "char \<Rightarrow> int" where
  "digit_value c = of_char c - 48"

definition int_of_digits :: "string \<Rightarrow> int" where
  "int_of_digits s = foldl (\<lambda>n c. 10 * n + digit_value c) 0 s"

text \<open>
  \<open>next((f for f in xs if p(f)), None)\<close> is \<^const>\<open>find\<close>.
  \<open>f.readlines()\<close> cuts the text after each newline; \<open>f.readline()\<close> is its first piece,
  or the empty string at the end of the file.
\<close>

fun lines_from :: "string \<Rightarrow> string \<Rightarrow> string list" where
  "lines_from cur [] = (if cur = [] then [] else [cur])"
| "lines_from cur (c # cs) =
     (if c = CHR 0x0A then (cur @ [c]) # lines_from [] cs else lines_from (cur @ [c]) cs)"

definition readlines :: "string \<Rightarrow> string list" where
  "readlines s = lines_from [] s"

definition readline :: "string \<Rightarrow> string" where
  "readline s = (case readlines s of [] \<Rightarrow> [] | l # _ \<Rightarrow> l)"

text \<open>
  \<open>os.path.splitext(name)[0]\<close> for a name without a directory separator: the name up to
  its last dot, unless only dots come before that dot.
\<close>

definition splitext_root :: "string \<Rightarrow> string" where
  "splitext_root p =
     (let ext = rev (takeWhile (\<lambda>c. c \<noteq> CHR ''.'') (rev p));
          stem = take (length p - length ext - 1) p
      in if length ext < length p \<and> list_ex (\<lambda>c. c \<noteq> CHR ''.'') stem then stem else p)"

text \<open>
  \<open>os.path.join(a, b)\<close> with the separator \<open>/\<close>, then \<open>.replace('\\', '/')\<close>, as the
  engine builds a media path.
\<close>

definition path_join :: "string \<Rightarrow> string \<Rightarrow> string" where
  "path_join a b =
     (if b \<noteq> [] \<and> hd b = CHR ''/'' then b
      else if a = [] \<or> last a = CHR ''/'' then a @ b
      else a @ ''/'' @ b)"

subsection \<open>JSON documents as Python objects\<close>

datatype json =
    JNull
  | JBool bool
  | JInt int
  | JFloat real
  | JStr string
  | JArr "json list"
  | JObj "(string \<times> json) list"

text \<open>Python's truth value of an object, as \<open>if x\<close>, \<open>not x\<close> and \<open>x or y\<close> use it.\<close>

fun truthy :: "json \<Rightarrow> bool" where
  "truthy JNull = False"
| "truthy (JBool b) = b"
| "truthy (JInt i) = (i \<noteq> 0)"
| "truthy (JFloat r) = (r \<noteq> 0)"
| "truthy (JStr s) = (s \<noteq> [])"
| "truthy (JArr xs) = (xs \<noteq> [])"
| "truthy (JObj kvs) = (kvs \<noteq> [])"

definition py_or :: "json \<Rightarrow> json \<Rightarrow> json" where
  "py_or a b = (if truthy a then a else b)"

text \<open>
  \<open>d.get(k, default)\<close>: the value under \<open>k\<close>, the default when the key is missing, and
  \<open>None\<close> of the model (an AttributeError of the program) when \<open>d\<close> is not a dict.
\<close>

definition dict_get :: "(string \<times> json) list \<Rightarrow> string \<Rightarrow> json \<Rightarrow> json" where
  "dict_get kvs k d = (case map_of kvs k of None \<Rightarrow> d | Some v \<Rightarrow> v)"

fun get_default :: "json \<Rightarrow> string \<Rightarrow> json \<Rightarrow> json option" where
  "get_default (JObj kvs) k d = Some (dict_get kvs k d)"
| "get_default _ k d = None"

definition get :: "json \<Rightarrow> string \<Rightarrow> json option" where
  "get d k = get_default d k JNull"

text \<open>\<open>k in d\<close> for a dict \<open>d\<close>.\<close>

definition has_key :: "(string \<times> json) list \<Rightarrow> string \<Rightarrow> bool" where
  "has_key kvs k = (map_of kvs k \<noteq> None)"

section \<open>The file system and the library, as the engine sees them\<close>

record datetime =
  year :: nat
  month :: nat
  day :: nat
  hour :: nat
  minute :: nat
  second :: nat
  microsecond :: nat

text \<open>
  A directory entry: its name, whether \<open>os.path.isfile\<close> holds, the text that reading it
  in text mode gives (\<open>None\<close> when opening, reading or decoding fails), and what
  \<open>os.path.getmtime\<close> returns (\<open>None\<close> for an OSError).
\<close>

record entry =
  e_name :: string
  e_isfile :: bool
  e_text :: "string option"
  e_mtime :: "real option"

text \<open>
  The archive root maps an author handle to its directory: \<open>None\<close> when
  \<open>os.path.isdir\<close> fails, \<open>Some None\<close> when the directory exists but \<open>os.listdir\<close>
  raises, \<open>Some (Some es)\<close> with the entries in the order \<open>os.listdir\<close> returns them.
\<close>

type_synonym archive = "string \<Rightarrow> entry list option option"

definition read_text :: "entry list \<Rightarrow> string \<Rightarrow> string option" where
  "read_text es n =
     (case find (\<lambda>e. e_name e = n) es of
        None \<Rightarrow> None
      | Some e \<Rightarrow> if e_isfile e then e_text e else None)"

definition getmtime :: "entry list \<Rightarrow> string \<Rightarrow> real option" where
  "getmtime es n =
     (case find (\<lambda>e. e_name e = n) es of None \<Rightarrow> None | Some e \<Rightarrow> e_mtime e)"

section \<open>The persisted model (\<open>app/models.py\<close>)\<close>

text \<open>
  A column that may hold any value the engine assigns from a metadata record is a
  \<^typ>\<open>json\<close> value, with \<^const>\<open>JNull\<close> for Python's \<open>None\<close>. The media list and the raw
  metadata record are kept as the values whose JSON text the columns \<open>media_files_json\<close>
  and \<open>raw_json_data_text\<close> store.
\<close>

record User =
  u_id :: nat
  username :: string
  name :: json
  nick :: json
  location :: json
  description :: json
  verified :: json
  profile_image_url :: json
  favourites_count :: json
  followers_count :: json
  friends_count :: json
  listed_count :: json
  media_count :: json
  statuses_count :: json

record Post =
  p_id :: string
  user_id :: nat
  timestamp :: "datetime option"
  text_content :: json
  media_files :: "string list"
  retweet_count :: json
  reply_count :: json
  favorite_count :: json
  bookmark_count :: json
  raw_json_data :: "json option"

record db =
  users :: "User list"
  posts :: "Post list"

text \<open>
  The exceptions that can leave the engine: an OSError of the file system or of the
  time conversion, a ValueError or an OverflowError of \<open>datetime.fromtimestamp\<close>, and
  an error of the store when it is asked to write a row.
\<close>

datatype error = OSError | ValueError | OverflowError | SQLAlchemyError

text \<open>
  What the engine calls outside the repository: \<open>json.load\<close> on a file's text (\<open>None\<close>
  for a JSONDecodeError), \<open>datetime.strptime\<close> with the format \<open>%Y-%m-%d %H:%M:%S\<close>
  (\<open>None\<close> for a ValueError), \<open>datetime.fromtimestamp\<close> in the host's time zone with
  the exception it raises, if any, and the store: whether it accepts the commit of a
  refreshed author row, whether it accepts the insertion of a post, and the value a
  text, an integer and a boolean column give back for a value of another type.
\<close>

record env =
  json_load :: "string \<Rightarrow> json option"
  strptime :: "string \<Rightarrow> datetime option"
  fromtimestamp :: "real \<Rightarrow> error + datetime"
  user_commit_ok :: "User \<Rightarrow> bool"
  insert_ok :: "Post \<Rightarrow> bool"
  text_affinity :: "json \<Rightarrow> json"
  integer_affinity :: "json \<Rightarrow> json"
  boolean_affinity :: "json \<Rightarrow> json"

section \<open>Filename Tagger and Timestamp Resolver (\<open>app/utils.py\<close>)\<close>

text \<open>\<open>re.match(r'^(\d+)', filename)\<close>: the greedy run of digits at the start, at least one.\<close>

definition extract_tweet_id_from_filename :: "string \<Rightarrow> string option" where
  "extract_tweet_id_from_filename filename =
     (let m = takeWhile isdigit filename in if m = [] then None else Some m)"

text \<open>
  \<open>re.search(r'(\d{9,11})', s)\<close>: at the leftmost position where nine digits follow, the
  digits that follow, eleven at most.
\<close>

fun search_digits_9_11 :: "string \<Rightarrow> string option" where
  "search_digits_9_11 [] = None"
| "search_digits_9_11 (c # cs) =
     (let run = takeWhile isdigit (c # cs)
      in if 9 \<le> length run then Some (take 11 run) else search_digits_9_11 cs)"

text \<open>Priority 1: the \<open>date\<close> field of the first \<open>.json\<close> file of the group.\<close>

definition json_date :: "env \<Rightarrow> entry list \<Rightarrow> string list \<Rightarrow> datetime option" where
  "json_date E es files_for_post =
     (case find (\<lambda>f. endswith f ''.json'') files_for_post of
        None \<Rightarrow> None
      | Some json_file_name \<Rightarrow>
          (case read_text es json_file_name of
             None \<Rightarrow> None
           | Some txt \<Rightarrow>
               (case json_load E txt of
                  None \<Rightarrow> None
                | Some json_data \<Rightarrow>
                    (case get json_data ''date'' of
                       None \<Rightarrow> None
                     | Some date_str \<Rightarrow>
                         if truthy date_str
                         then (case date_str of JStr s \<Rightarrow> strptime E s | _ \<Rightarrow> None)
                         else None))))"

text \<open>Priority 2: the first line of the first \<open>.txt\<close> file of the group.\<close>

definition txt_date :: "env \<Rightarrow> entry list \<Rightarrow> string list \<Rightarrow> datetime option" where
  "txt_date E es files_for_post =
     (case find (\<lambda>f. endswith f ''.txt'') files_for_post of
        None \<Rightarrow> None
      | Some txt_file \<Rightarrow>
          (case read_text es txt_file of
             None \<Rightarrow> None
           | Some txt \<Rightarrow> strptime E (strip (readline txt))))"

text \<open>
  Priority 3: a Unix time in a file name, the files taken in the group's order. The
  handler of line 81 catches a ValueError and an OSError of the conversion; any other
  exception leaves the function.
\<close>

fun name_date :: "env \<Rightarrow> string list \<Rightarrow> error + datetime option" where
  "name_date E [] = Inr None"
| "name_date E (filename # rest) =
     (case search_digits_9_11 (splitext_root filename) of
        None \<Rightarrow> name_date E rest
      | Some ts_str \<Rightarrow>
          (let ts_int = int_of_digits ts_str
           in if 946684800 \<le> ts_int \<and> ts_int < 2524608000
              then (case fromtimestamp E (of_int ts_int) of
                      Inr t \<Rightarrow> Inr (Some t)
                    | Inl e \<Rightarrow>
                        if e = ValueError \<or> e = OSError then name_date E rest else Inl e)
              else name_date E rest))"

text \<open>
  Priority 4: the modification time of the group's first file. The handler of line 92
  catches an OSError only, of \<open>os.path.getmtime\<close> or of the conversion; a ValueError or
  an OverflowError of the conversion leaves the function.
\<close>

definition mtime_date :: "env \<Rightarrow> entry list \<Rightarrow> string list \<Rightarrow> error + datetime option" where
  "mtime_date E es files_for_post =
     (case files_for_post of
        [] \<Rightarrow> Inr None
      | first_file # _ \<Rightarrow>
          (case getmtime es first_file of
             None \<Rightarrow> Inr None
           | Some mod_time \<Rightarrow>
               (case fromtimestamp E mod_time of
                  Inr t \<Rightarrow> Inr (Some t)
                | Inl e \<Rightarrow> if e = OSError then Inr None else Inl e)))"

text \<open>
  \<open>parse_timestamp(post_id, user_folder_path, files_for_post)\<close>; the entries of the
  author's directory stand for its path, and \<open>post_id\<close> only appears in log messages.
  The result is the timestamp, \<open>None\<close> for unknown, or the exception that leaves the
  function.
\<close>

definition parse_timestamp ::
  "env \<Rightarrow> string \<Rightarrow> entry list \<Rightarrow> string list \<Rightarrow> error + datetime option" where
  "parse_timestamp E post_id es files_for_post =
     (case json_date E es files_for_post of
        Some t \<Rightarrow> Inr (Some t)
      | None \<Rightarrow>
          (case txt_date E es files_for_post of
             Some t \<Rightarrow> Inr (Some t)
           | None \<Rightarrow>
               (case name_date E files_for_post of
                  Inl e \<Rightarrow> Inl e
                | Inr (Some t) \<Rightarrow> Inr (Some t)
                | Inr None \<Rightarrow> mtime_date E es files_for_post)))"

section \<open>The Sync Controller (\<open>app/services.py\<close>)\<close>

text \<open>
  \<open>app.py\<close> holds the same functions, word for word, in one module. The extension
  tuples are imported from \<open>app/constants.py\<close>, which is not among the sources; their
  values are those \<open>app.py\<close> assigns to the same names.
\<close>

definition IMAGE_EXTENSIONS :: "string list" where
  "IMAGE_EXTENSIONS = [''.jpg'', ''.jpeg'', ''.png'', ''.gif'', ''.webp'']"

definition VIDEO_EXTENSIONS :: "string list" where
  "VIDEO_EXTENSIONS = [''.mp4'']"

definition MEDIA_EXTENSIONS :: "string list" where
  "MEDIA_EXTENSIONS = IMAGE_EXTENSIONS @ VIDEO_EXTENSIONS"

subsection \<open>Rows as the store gives them back\<close>

text \<open>
  A text column gives back a string or \<open>None\<close> as written, an integer column an integer
  or \<open>None\<close>, a boolean column a boolean or \<open>None\<close>; a value of another type that the
  store accepts comes back as the column's affinity turns it. Of a post, the
  identifier, the author key, the timestamp, the media list and the raw record come
  back as written; of an author, the key and the handle.
\<close>

definition text_column :: "env \<Rightarrow> json \<Rightarrow> json" where
  "text_column E v = (case v of JNull \<Rightarrow> JNull | JStr s \<Rightarrow> JStr s | _ \<Rightarrow> text_affinity E v)"

definition integer_column :: "env \<Rightarrow> json \<Rightarrow> json" where
  "integer_column E v = (case v of JNull \<Rightarrow> JNull | JInt i \<Rightarrow> JInt i | _ \<Rightarrow> integer_affinity E v)"

definition boolean_column :: "env \<Rightarrow> json \<Rightarrow> json" where
  "boolean_column E v = (case v of JNull \<Rightarrow> JNull | JBool b \<Rightarrow> JBool b | _ \<Rightarrow> boolean_affinity E v)"

definition stored_user :: "env \<Rightarrow> User \<Rightarrow> User" where
  "stored_user E u =
     u\<lparr>name := text_column E (name u),
       nick := text_column E (nick u),
       location := text_column E (location u),
       description := text_column E (description u),
       verified := boolean_column E (verified u),
       profile_image_url := text_column E (profile_image_url u),
       favourites_count := integer_column E (favourites_count u),
       followers_count := integer_column E (followers_count u),
       friends_count := integer_column E (friends_count u),
       listed_count := integer_column E (listed_count u),
       media_count := integer_column E (media_count u),
       statuses_count := integer_column E (statuses_count u)\<rparr>"

definition stored_row :: "env \<Rightarrow> Post \<Rightarrow> Post" where
  "stored_row E p =
     p\<lparr>text_content := text_column E (text_content p),
       retweet_count := integer_column E (retweet_count p),
       reply_count := integer_column E (reply_count p),
       favorite_count := integer_column E (favorite_count p),
       bookmark_count := integer_column E (bookmark_count p)\<rparr>"

subsection \<open>Author lookup and creation\<close>

definition find_user :: "db \<Rightarrow> string \<Rightarrow> User option" where
  "find_user d uname = find (\<lambda>u. username u = uname) (users d)"

text \<open>The key the store gives a new row: one more than the largest key in the table.\<close>

definition new_user_id :: "User list \<Rightarrow> nat" where
  "new_user_id us = Suc (fold max (map u_id us) 0)"

definition new_user :: "nat \<Rightarrow> string \<Rightarrow> User" where
  "new_user i uname =
     \<lparr>u_id = i, username = uname, name = JNull, nick = JNull, location = JNull,
      description = JNull, verified = JNull, profile_image_url = JNull,
      favourites_count = JNull, followers_count = JNull, friends_count = JNull,
      listed_count = JNull, media_count = JNull, statuses_count = JNull\<rparr>"

definition get_or_create_user :: "db \<Rightarrow> string \<Rightarrow> User \<times> db" where
  "get_or_create_user d uname =
     (case find_user d uname of
        Some db_user \<Rightarrow> (db_user, d)
      | None \<Rightarrow>
          (let db_user = new_user (new_user_id (users d)) uname
           in (db_user, d\<lparr>users := users d @ [db_user]\<rparr>)))"

subsection \<open>Author Aggregator\<close>

text \<open>
  The test of line 53 on a candidate record, with Python's short-circuit evaluation:
  \<open>None\<close> when a \<open>.get\<close> is called on something that is not a dict, which the
  enclosing \<open>try\<close> catches.
\<close>

definition user_info_matches :: "json \<Rightarrow> json \<Rightarrow> string \<Rightarrow> bool option" where
  "user_info_matches data user_info uname =
     (if \<not> truthy user_info then Some False
      else case get user_info ''nick'' of
        None \<Rightarrow> None
      | Some n1 \<Rightarrow>
          if n1 = JStr uname then Some True
          else (case get user_info ''name'' of
            None \<Rightarrow> None
          | Some n2 \<Rightarrow>
              if n2 = JStr uname then Some True
              else (case get_default data ''author'' (JObj []) of
                None \<Rightarrow> None
              | Some a \<Rightarrow>
                  (case get a ''nick'' of
                     None \<Rightarrow> None
                   | Some n3 \<Rightarrow>
                       if n3 = JStr uname then Some True
                       else (case get_default data ''user'' (JObj []) of
                         None \<Rightarrow> None
                       | Some u \<Rightarrow>
                           (case get u ''nick'' of
                              None \<Rightarrow> None
                            | Some n4 \<Rightarrow> Some (n4 = JStr uname)))))))"

text \<open>
  The loop of lines 43 to 58 over the candidate file names: the result is
  \<open>user_json_data\<close>, the empty dict when no candidate matches.
\<close>

fun collect_user_json :: "env \<Rightarrow> entry list \<Rightarrow> string \<Rightarrow> string list \<Rightarrow> (string \<times> json) list" where
  "collect_user_json E es uname [] = []"
| "collect_user_json E es uname (json_file_name # rest) =
     (case read_text es json_file_name of
        None \<Rightarrow> collect_user_json E es uname rest
      | Some txt \<Rightarrow>
          (case json_load E txt of
             None \<Rightarrow> collect_user_json E es uname rest
           | Some data \<Rightarrow>
               (case data of
                  JObj kvs \<Rightarrow>
                    (let user_info = py_or (dict_get kvs ''author'' JNull) (dict_get kvs ''user'' JNull)
                     in case user_info_matches data user_info uname of
                          Some True \<Rightarrow>
                            (case user_info of
                               JObj info \<Rightarrow> info
                             | _ \<Rightarrow> collect_user_json E es uname rest)
                        | _ \<Rightarrow> collect_user_json E es uname rest)
                | _ \<Rightarrow> collect_user_json E es uname rest)))"

definition json_files_in_folder :: "entry list \<Rightarrow> string list" where
  "json_files_in_folder es = filter (\<lambda>f. endswith f ''.json'') (map e_name es)"

text \<open>Lines 61 to 72: each field becomes \<open>user_json_data.get(key, old value)\<close>.\<close>

definition refresh_user :: "User \<Rightarrow> (string \<times> json) list \<Rightarrow> User" where
  "refresh_user db_user user_json_data =
     db_user\<lparr>
       name := dict_get user_json_data ''name'' (name db_user),
       nick := dict_get user_json_data ''nick'' (nick db_user),
       location := dict_get user_json_data ''location'' (location db_user),
       description := dict_get user_json_data ''description'' (description db_user),
       verified := dict_get user_json_data ''verified'' (verified db_user),
       profile_image_url := dict_get user_json_data ''profile_image'' (profile_image_url db_user),
       favourites_count := dict_get user_json_data ''favourites_count'' (favourites_count db_user),
       followers_count := dict_get user_json_data ''followers_count'' (followers_count db_user),
       friends_count := dict_get user_json_data ''friends_count'' (friends_count db_user),
       listed_count := dict_get user_json_data ''listed_count'' (listed_count db_user),
       media_count := dict_get user_json_data ''media_count'' (media_count db_user),
       statuses_count := dict_get user_json_data ''statuses_count'' (statuses_count db_user)\<rparr>"

text \<open>
  Lines 75 to 81: the commit writes the row with the author's key; when it fails the
  rollback leaves the table as it was.
\<close>

definition commit_user :: "env \<Rightarrow> db \<Rightarrow> User \<Rightarrow> db" where
  "commit_user E d db_user =
     (if user_commit_ok E db_user
      then d\<lparr>users := map (\<lambda>u. if u_id u = u_id db_user then stored_user E db_user else u)
                          (users d)\<rparr>
      else d)"

subsection \<open>File Grouper\<close>

text \<open>
  \<open>files_by_tweet_id\<close> is a \<open>defaultdict(list)\<close>: an association list in the order the
  keys were first inserted, each key once.
\<close>

fun dict_append :: "(string \<times> string list) list \<Rightarrow> string \<Rightarrow> string \<Rightarrow> (string \<times> string list) list" where
  "dict_append [] k v = [(k, [v])]"
| "dict_append ((k', vs) # rest) k v =
     (if k' = k then (k', vs @ [v]) # rest else (k', vs) # dict_append rest k v)"

definition group_step :: "(string \<times> string list) list \<Rightarrow> entry \<Rightarrow> (string \<times> string list) list" where
  "group_step groups e =
     (if e_isfile e
      then (case extract_tweet_id_from_filename (e_name e) of
              Some tweet_id \<Rightarrow>
                if tweet_id \<noteq> [] then dict_append groups tweet_id (e_name e) else groups
            | None \<Rightarrow> groups)
      else groups)"

definition files_by_tweet_id :: "entry list \<Rightarrow> (string \<times> string list) list" where
  "files_by_tweet_id es = foldl group_step [] es"

subsection \<open>Post Extractor\<close>

definition temp_post_data :: "string \<Rightarrow> nat \<Rightarrow> Post" where
  "temp_post_data tweet_id uid =
     \<lparr>p_id = tweet_id, user_id = uid, timestamp = None, text_content = JNull,
      media_files = [], retweet_count = JNull, reply_count = JNull,
      favorite_count = JNull, bookmark_count = JNull, raw_json_data = None\<rparr>"

text \<open>Lines 146 and 147, on a metadata record that is a dict.\<close>

definition json_text :: "json \<Rightarrow> (string \<times> json) list \<Rightarrow> json" where
  "json_text old json_data =
     (if \<not> truthy old \<and>
         (has_key json_data ''full_text'' \<or> has_key json_data ''content'' \<or> has_key json_data ''text'')
      then py_or (dict_get json_data ''full_text'' JNull)
             (py_or (dict_get json_data ''content'' JNull) (dict_get json_data ''text'' JNull))
      else old)"

text \<open>
  Lines 134 to 152. A record that is not a dict is serialised, then its first \<open>.get\<close>
  raises and the \<open>except\<close> leaves the other fields as they were. A file of the group is
  a listed file, so \<open>os.path.exists\<close> holds for it.
\<close>

definition read_json :: "env \<Rightarrow> entry list \<Rightarrow> string list \<Rightarrow> Post \<Rightarrow> Post" where
  "read_json E es associated_files p =
     (case find (\<lambda>f. endswith f ''.json'') associated_files of
        None \<Rightarrow> p
      | Some json_file \<Rightarrow>
          (case read_text es json_file of
             None \<Rightarrow> p
           | Some txt \<Rightarrow>
               (case json_load E txt of
                  None \<Rightarrow> p
                | Some json_data \<Rightarrow>
                    (case json_data of
                       JObj kvs \<Rightarrow>
                         p\<lparr>raw_json_data := Some json_data,
                           retweet_count := dict_get kvs ''retweet_count'' JNull,
                           favorite_count := dict_get kvs ''favorite_count'' JNull,
                           reply_count := dict_get kvs ''reply_count'' JNull,
                           bookmark_count := dict_get kvs ''bookmark_count'' JNull,
                           text_content := json_text (text_content p) kvs\<rparr>
                     | _ \<Rightarrow> p\<lparr>raw_json_data := Some json_data\<rparr>))))"

text \<open>Lines 154 to 171.\<close>

definition read_txt :: "env \<Rightarrow> entry list \<Rightarrow> string list \<Rightarrow> Post \<Rightarrow> Post" where
  "read_txt E es associated_files p =
     (case find (\<lambda>f. endswith f ''.txt'') associated_files of
        None \<Rightarrow> p
      | Some txt_file \<Rightarrow>
          (case read_text es txt_file of
             None \<Rightarrow> p
           | Some txt \<Rightarrow>
               (case readlines txt of
                  [] \<Rightarrow> p
                | line0 # others \<Rightarrow>
                    (case strptime E (strip line0) of
                       Some _ \<Rightarrow>
                         if \<not> truthy (text_content p)
                         then p\<lparr>text_content := JStr (strip (concat others))\<rparr>
                         else p
                     | None \<Rightarrow>
                         if \<not> truthy (text_content p)
                         then p\<lparr>text_content := JStr (strip (concat (line0 # others)))\<rparr>
                         else p))))"

text \<open>Lines 173 to 175.\<close>

definition media_path :: "string \<Rightarrow> string \<Rightarrow> string" where
  "media_path uname filename = replace_char (CHR 0x5C) (CHR ''/'') (path_join uname filename)"

definition collect_media :: "string \<Rightarrow> string list \<Rightarrow> string list" where
  "collect_media uname associated_files =
     map (media_path uname)
       (filter (\<lambda>filename. endswith_any (lower filename) MEDIA_EXTENSIONS) associated_files)"

text \<open>
  The body of the loop of line 115, for a group that is not skipped: the record
  \<open>temp_post_data\<close> as lines 120 to 175 fill it, then the call of the Timestamp
  Resolver of line 177, which is outside every \<open>try\<close>, and the post built from both.
\<close>

definition extract_post_data :: "env \<Rightarrow> string \<Rightarrow> nat \<Rightarrow> entry list \<Rightarrow> string \<Rightarrow> string list \<Rightarrow> Post" where
  "extract_post_data E uname uid es tweet_id associated_files =
     (read_txt E es associated_files
        (read_json E es associated_files (temp_post_data tweet_id uid)))
     \<lparr>media_files := collect_media uname associated_files\<rparr>"

definition build_post ::
  "env \<Rightarrow> string \<Rightarrow> nat \<Rightarrow> entry list \<Rightarrow> string \<Rightarrow> string list \<Rightarrow> error + Post" where
  "build_post E uname uid es tweet_id associated_files =
     (case parse_timestamp E tweet_id es associated_files of
        Inl e \<Rightarrow> Inl e
      | Inr t \<Rightarrow>
          Inr ((extract_post_data E uname uid es tweet_id associated_files)\<lparr>timestamp := t\<rparr>))"

subsection \<open>The scan and the controller\<close>

text \<open>
  \<open>db.session.get(Post, tweet_id)\<close> first flushes the posts added to the session so
  far, which raises when the store refuses one of them, and then looks among the stored
  posts and the flushed ones. A post that is built is added to the session.
\<close>

definition get_post :: "Post list \<Rightarrow> string \<Rightarrow> Post option" where
  "get_post ps tweet_id = find (\<lambda>p. p_id p = tweet_id) ps"

fun scan_groups ::
  "env \<Rightarrow> string \<Rightarrow> nat \<Rightarrow> entry list \<Rightarrow> Post list \<Rightarrow> (string \<times> string list) list \<Rightarrow> Post list
     \<Rightarrow> error + Post list" where
  "scan_groups E uname uid es stored [] pending = Inr pending"
| "scan_groups E uname uid es stored ((tweet_id, associated_files) # rest) pending =
     (if \<not> list_all (insert_ok E) pending then Inl SQLAlchemyError
      else if get_post (stored @ pending) tweet_id \<noteq> None
      then scan_groups E uname uid es stored rest pending
      else (case build_post E uname uid es tweet_id associated_files of
              Inl e \<Rightarrow> Inl e
            | Inr p \<Rightarrow> scan_groups E uname uid es stored rest (pending @ [p])))"

text \<open>
  Lines 96 to 201: the second listing of the directory, the loop and the commit of the
  new posts. An exception of the loop leaves the function with nothing of the scan
  written. The commit is inside a \<open>try\<close>: when the store refuses a post it is rolled
  back, and the count returned is still the number of posts added to the session.
\<close>

definition full_scan :: "env \<Rightarrow> archive \<Rightarrow> string \<Rightarrow> nat \<Rightarrow> nat \<Rightarrow> db \<Rightarrow> (error + nat \<times> nat) \<times> db" where
  "full_scan E fs uname uid posts_deleted d =
     (case fs uname of
        Some (Some es) \<Rightarrow>
          (case scan_groups E uname uid es (posts d) (files_by_tweet_id es) [] of
             Inl e \<Rightarrow> (Inl e, d)
           | Inr pending \<Rightarrow>
               (Inr (length pending, posts_deleted),
                if list_all (insert_ok E) pending
                then d\<lparr>posts := posts d @ map (stored_row E) pending\<rparr>
                else d))
      | _ \<Rightarrow> (Inr (0, posts_deleted), d))"

definition user_posts :: "db \<Rightarrow> nat \<Rightarrow> Post list" where
  "user_posts d uid = filter (\<lambda>p. user_id p = uid) (posts d)"

definition delete_user_posts :: "db \<Rightarrow> nat \<Rightarrow> db" where
  "delete_user_posts d uid = d\<lparr>posts := filter (\<lambda>p. user_id p \<noteq> uid) (posts d)\<rparr>"

text \<open>
  \<open>process_and_cache_user_posts(username, force_rescan)\<close>: the result is the pair
  (added, deleted), or the exception that leaves the function (the listing of line 38
  and the loop of line 115 are outside every \<open>try\<close>), together with the store as
  committed.
\<close>

definition process_and_cache_user_posts ::
  "env \<Rightarrow> archive \<Rightarrow> string \<Rightarrow> bool \<Rightarrow> db \<Rightarrow> (error + nat \<times> nat) \<times> db" where
  "process_and_cache_user_posts E fs uname force_rescan d =
     (case fs uname of
        None \<Rightarrow> (Inr (0, 0), d)
      | Some listing \<Rightarrow>
          (let (db_user, d1) = get_or_create_user d uname
           in case listing of
                None \<Rightarrow> (Inl OSError, d1)
              | Some es \<Rightarrow>
                  (let user_json_data =
                         collect_user_json E es uname (rev (sort (json_files_in_folder es)));
                       d2 = commit_user E d1 (refresh_user db_user user_json_data);
                       uid = u_id db_user
                   in if force_rescan
                      then full_scan E fs uname uid (length (user_posts d2 uid))
                             (delete_user_posts d2 uid)
                      else if user_posts d2 uid \<noteq> [] then (Inr (0, 0), d2)
                      else full_scan E fs uname uid 0 d2)))"

section \<open>Notions used in the statements\<close>

text \<open>
  Every file of a group carries the group's identifier and is a regular file of the
  directory.
\<close>

definition groups_sound :: "entry list \<Rightarrow> (string \<times> string list) list \<Rightarrow> bool" where
  "groups_sound es g =
     (\<forall>(k, vs)\<in>set g. \<forall>f\<in>set vs.
        extract_tweet_id_from_filename f = Some k \<and> (\<exists>e\<in>set es. e_isfile e \<and> e_name e = f))"




text \<open>The key under which an author's posts are stored: its row's, or the one a new row gets.\<close>

definition author_key :: "db \<Rightarrow> string \<Rightarrow> nat" where
  "author_key d uname = u_id (fst (get_or_create_user d uname))"

text \<open>
  The value of the first of the fields \<open>full_text\<close>, \<open>content\<close>, \<open>text\<close> that is present
  in a metadata record, and \<open>None\<close> when none is.
\<close>

definition first_present_field :: "(string \<times> json) list \<Rightarrow> json" where
  "first_present_field kvs =
     (case find (has_key kvs) [''full_text'', ''content'', ''text''] of
        Some k \<Rightarrow> dict_get kvs k JNull
      | None \<Rightarrow> JNull)"

text \<open>
  The body a caption file gives: its text without the first line when that line,
  stripped, parses as a timestamp, its whole text otherwise, stripped in both cases;
  nothing when there is no readable caption file or it is empty.
\<close>

definition caption_body :: "env \<Rightarrow> entry list \<Rightarrow> string list \<Rightarrow> string option" where
  "caption_body E es associated_files =
     (case find (\<lambda>f. endswith f ''.txt'') associated_files of
        None \<Rightarrow> None
      | Some txt_file \<Rightarrow>
          (case read_text es txt_file of
             None \<Rightarrow> None
           | Some txt \<Rightarrow>
               if txt = [] then None
               else if strptime E (strip (readline txt)) \<noteq> None
               then Some (strip (drop (length (readline txt)) txt))
               else Some (strip txt)))"

text \<open>
  The store after the author lookup or creation and the profile refresh of a sync, for
  a directory with the entries \<open>es\<close>.
\<close>

definition refreshed_db :: "env \<Rightarrow> entry list \<Rightarrow> string \<Rightarrow> db \<Rightarrow> db" where
  "refreshed_db E es uname d =
     (let (db_user, d1) = get_or_create_user d uname
      in commit_user E d1
           (refresh_user db_user
              (collect_user_json E es uname (rev (sort (json_files_in_folder es))))))"

section \<open>Example archives and stores\<close>

definition date_a :: datetime where
  "date_a = \<lparr>year = 2020, month = 1, day = 1, hour = 10, minute = 0, second = 0, microsecond = 0\<rparr>"

definition date_b :: datetime where
  "date_b = \<lparr>year = 2021, month = 2, day = 3, hour = 4, minute = 5, second = 6, microsecond = 0\<rparr>"

definition date_c :: datetime where
  "date_c = \<lparr>year = 2020, month = 9, day = 13, hour = 12, minute = 26, second = 40, microsecond = 0\<rparr>"

definition doc_post :: string where
  "doc_post = ''{\"date\":\"2020-01-01 10:00:00\",\"full_text\":\"hi\"}''"

definition doc_empty_text :: string where
  "doc_empty_text = ''{\"full_text\":\"\",\"content\":\"hello\"}''"

definition doc_counts :: string where
  "doc_counts = ''{\"retweet_count\":3}''"

definition doc_list_text :: string where
  "doc_list_text = ''{\"full_text\":[\"a\"]}''"

definition doc_author :: string where
  "doc_author = ''{\"author\":{\"nick\":\"alice\",\"followers_count\":null}}''"

text \<open>
  A library that knows the documents and dates of the examples: \<open>json.load\<close> and
  \<open>strptime\<close> by table; \<open>fromtimestamp\<close> by table too, in UTC, with the ValueError of
  a time beyond the year 9999; and a store that accepts every author row, refuses a post
  with a list or a dict in a column, as SQLite cannot bind one, and whose affinities are
  not reached by the examples.
\<close>

fun binds :: "json \<Rightarrow> bool" where
  "binds (JArr xs) = False"
| "binds (JObj kvs) = False"
| "binds v = True"

definition example_insert_ok :: "Post \<Rightarrow> bool" where
  "example_insert_ok p =
     (binds (text_content p) \<and> binds (retweet_count p) \<and> binds (reply_count p) \<and>
      binds (favorite_count p) \<and> binds (bookmark_count p))"

definition example_fromtimestamp :: "real \<Rightarrow> error + datetime" where
  "example_fromtimestamp r =
     (case map_of [(1600000000, Inr date_c), (1000000000000, Inl ValueError)] r of
        Some x \<Rightarrow> x
      | None \<Rightarrow> Inl OSError)"

definition example_env :: env where
  "example_env =
     \<lparr>json_load = map_of
        [(doc_post, JObj [(''date'', JStr ''2020-01-01 10:00:00''), (''full_text'', JStr ''hi'')]),
         (doc_empty_text, JObj [(''full_text'', JStr ''''), (''content'', JStr ''hello'')]),
         (doc_counts, JObj [(''retweet_count'', JInt 3)]),
         (doc_list_text, JObj [(''full_text'', JArr [JStr ''a''])]),
         (doc_author,
          JObj [(''author'', JObj [(''nick'', JStr ''alice''), (''followers_count'', JNull)])])],
      strptime = map_of [(''2020-01-01 10:00:00'', date_a), (''2021-02-03 04:05:06'', date_b)],
      fromtimestamp = example_fromtimestamp,
      user_commit_ok = (\<lambda>u. True),
      insert_ok = example_insert_ok,
      text_affinity = (\<lambda>v. v),
      integer_affinity = (\<lambda>v. v),
      boolean_affinity = (\<lambda>v. v)\<rparr>"

definition regular_file :: "string \<Rightarrow> string option \<Rightarrow> real option \<Rightarrow> entry" where
  "regular_file n t m = \<lparr>e_name = n, e_isfile = True, e_text = t, e_mtime = m\<rparr>"

definition alice_dir :: "entry list" where
  "alice_dir =
     [regular_file ''111_20200101.json'' (Some doc_post) (Some 1600000000),
      regular_file ''111_20200101.jpg'' None (Some 1600000000)]"

definition only_alice :: archive where
  "only_alice = (\<lambda>h. if h = ''alice'' then Some (Some alice_dir) else None)"

definition empty_db :: db where
  "empty_db = \<lparr>users = [], posts = []\<rparr>"

definition caption_b :: string where
  "caption_b = ''2021-02-03 04:05:06\<newline>second line\<newline>''"

definition three_sources_dir :: "entry list" where
  "three_sources_dir =
     [regular_file ''7_1600000000.jpg'' None (Some 1600000000),
      regular_file ''7.json'' (Some doc_post) (Some 1600000000),
      regular_file ''7.txt'' (Some caption_b) (Some 1600000000)]"

definition low_epoch_dir :: "entry list" where
  "low_epoch_dir = [regular_file ''0000000001.jpg'' None (Some 1600000000)]"

definition empty_text_dir :: "entry list" where
  "empty_text_dir = [regular_file ''5.json'' (Some doc_empty_text) (Some 1600000000)]"

definition caption_dir :: "entry list" where
  "caption_dir =
     [regular_file ''6.json'' (Some doc_counts) (Some 1600000000),
      regular_file ''6.txt'' (Some caption_b) (Some 1600000000)]"

definition author_dir :: "entry list" where
  "author_dir = [regular_file ''9.json'' (Some doc_author) (Some 1600000000)]"

definition author_archive :: archive where
  "author_archive = (\<lambda>h. if h = ''alice'' then Some (Some author_dir) else None)"

definition followed_db :: db where
  "followed_db = \<lparr>users = [(new_user 1 ''alice'')\<lparr>followers_count := JInt 100\<rparr>], posts = []\<rparr>"


definition stale_db :: db where
  "stale_db = \<lparr>users = [new_user 1 ''alice''], posts = [temp_post_data ''999'' 1]\<rparr>"




definition late_dir :: "entry list" where
  "late_dir = [regular_file ''5.jpg'' None (Some 1000000000000)]"

definition late_archive :: archive where
  "late_archive = (\<lambda>h. if h = ''alice'' then Some (Some late_dir) else None)"


section \<open>Directory absence\<close>

text \<open>
  C7. When the author's directory does not exist, the sync returns (0, 0) for either
  value of \<open>force_rescan\<close> and leaves the store as it was: no author row is created or
  updated and no post is added or deleted.
\<close>

theorem missing_directory_is_zero_result:
  "fs h = None \<Longrightarrow> process_and_cache_user_posts E fs h force_rescan d = (Inr (0, 0), d)"
  by (simp add: process_and_cache_user_posts_def)

theorem missing_directory_is_zero_result_witness:
  "only_alice ''bob'' = None \<and>
   process_and_cache_user_posts example_env only_alice ''bob'' False empty_db = (Inr (0, 0), empty_db) \<and>
   process_and_cache_user_posts example_env only_alice ''bob'' True empty_db = (Inr (0, 0), empty_db)"
proof -
  have h: "only_alice ''bob'' = None" by (simp add: only_alice_def)
  show ?thesis
    using h
      missing_directory_is_zero_result [of only_alice "''bob''" example_env False empty_db]
      missing_directory_is_zero_result [of only_alice "''bob''" example_env True empty_db]
    by simp
qed

section \<open>Filename Tagger and File Grouper\<close>

lemma extract_maximal:
  assumes "f = ds @ rest" "ds \<noteq> []" "\<forall>c\<in>set ds. isdigit c" "rest = [] \<or> \<not> isdigit (hd rest)"
  shows "extract_tweet_id_from_filename f = Some ds"
proof -
  have "takeWhile isdigit (ds @ rest) = ds"
    using assms(3,4) by (cases rest) (auto simp: takeWhile_append2)
  with assms(1,2) show ?thesis by (simp add: extract_tweet_id_from_filename_def)
qed

lemma extract_none: "(f = [] \<or> \<not> isdigit (hd f)) \<Longrightarrow> extract_tweet_id_from_filename f = None"
  by (cases f) (auto simp: extract_tweet_id_from_filename_def)



lemma dict_append_lookup:
  "map_of (dict_append g k v) k' =
     (if k' = k then Some ((case map_of g k of None \<Rightarrow> [] | Some vs \<Rightarrow> vs) @ [v]) else map_of g k')"
  by (induction g k v rule: dict_append.induct) auto

lemma dict_append_member:
  "(k', vs') \<in> set (dict_append g k v) \<Longrightarrow>
     (k', vs') \<in> set g \<or> (k' = k \<and> (\<exists>vs. vs' = vs @ [v] \<and> (vs = [] \<or> (k, vs) \<in> set g)))"
  by (induction g k v rule: dict_append.induct) (auto split: if_splits)

lemma dict_append_sound:
  assumes "groups_sound es g" "extract_tweet_id_from_filename v = Some k"
    "\<exists>e\<in>set es. e_isfile e \<and> e_name e = v"
  shows "groups_sound es (dict_append g k v)"
  unfolding groups_sound_def
proof (intro ballI, clarify)
  fix k' vs' f
  assume m: "(k', vs') \<in> set (dict_append g k v)" and f: "f \<in> set vs'"
  from dict_append_member[OF m] consider
    (old) "(k', vs') \<in> set g"
    | (new) vs where "k' = k" "vs' = vs @ [v]" "vs = [] \<or> (k, vs) \<in> set g" by blast
  then show "extract_tweet_id_from_filename f = Some k' \<and> (\<exists>e\<in>set es. e_isfile e \<and> e_name e = f)"
  proof cases
    case old
    with assms(1) f show ?thesis unfolding groups_sound_def by blast
  next
    case new
    show ?thesis
    proof (cases "f = v")
      case True
      with assms(2,3) new(1) show ?thesis by simp
    next
      case False
      with f new(2) have "f \<in> set vs" by simp
      then have "(k, vs) \<in> set g" using new(3) by auto
      with assms(1) \<open>f \<in> set vs\<close> new(1) show ?thesis unfolding groups_sound_def by blast
    qed
  qed
qed

lemma group_step_sound:
  "groups_sound es g \<Longrightarrow> e \<in> set es \<Longrightarrow> groups_sound es (group_step g e)"
  unfolding group_step_def
  by (auto split: option.splits intro!: dict_append_sound)

lemma foldl_group_step_sound:
  "groups_sound es g \<Longrightarrow> set xs \<subseteq> set es \<Longrightarrow> groups_sound es (foldl group_step g xs)"
  by (induction xs arbitrary: g) (auto intro: group_step_sound)

lemma files_by_tweet_id_sound: "groups_sound es (files_by_tweet_id es)"
  unfolding files_by_tweet_id_def
  by (rule foldl_group_step_sound) (simp_all add: groups_sound_def)




lemma group_step_keeps:
  "map_of g k = Some vs \<Longrightarrow> f \<in> set vs \<Longrightarrow>
     \<exists>vs'. map_of (group_step g e) k = Some vs' \<and> f \<in> set vs'"
  by (auto simp: group_step_def dict_append_lookup split: option.splits)

lemma foldl_group_step_keeps:
  "map_of g k = Some vs \<Longrightarrow> f \<in> set vs \<Longrightarrow>
     \<exists>vs'. map_of (foldl group_step g xs) k = Some vs' \<and> f \<in> set vs'"
proof (induction xs arbitrary: g vs)
  case Nil then show ?case by simp
next
  case (Cons x xs)
  from group_step_keeps[OF Cons.prems] obtain vs1
    where "map_of (group_step g x) k = Some vs1" "f \<in> set vs1" by blast
  from Cons.IH[OF this] show ?case by simp
qed

lemma group_step_adds:
  "e_isfile e \<Longrightarrow> extract_tweet_id_from_filename (e_name e) = Some k \<Longrightarrow>
     \<exists>vs. map_of (group_step g e) k = Some vs \<and> e_name e \<in> set vs"
  by (auto simp: group_step_def dict_append_lookup extract_tweet_id_from_filename_def Let_def
           split: if_splits)

lemma foldl_group_step_complete:
  "e \<in> set xs \<Longrightarrow> e_isfile e \<Longrightarrow> extract_tweet_id_from_filename (e_name e) = Some k \<Longrightarrow>
     \<exists>vs. map_of (foldl group_step g xs) k = Some vs \<and> e_name e \<in> set vs"
proof (induction xs arbitrary: g)
  case Nil then show ?case by simp
next
  case (Cons x xs)
  show ?case
  proof (cases "e = x")
    case True
    from group_step_adds[OF Cons.prems(2,3), of g] obtain vs
      where "map_of (group_step g e) k = Some vs" "e_name e \<in> set vs" by blast
    from foldl_group_step_keeps[OF this] show ?thesis using True by simp
  next
    case False
    with Cons.prems have "e \<in> set xs" by simp
    from Cons.IH[OF this Cons.prems(2,3)] show ?thesis by simp
  qed
qed

text \<open>
  C5. A file name that is a non-empty run of digits followed by a non-digit or by the
  end of the name is tagged with exactly that run, and a regular file of the directory
  with that name is in the group of that identifier; a name that does not begin with a
  digit has no identifier and is in no group.
\<close>

theorem grouping_completeness:
  "(f = ds @ rest \<and> ds \<noteq> [] \<and> (\<forall>c\<in>set ds. isdigit c) \<and> (rest = [] \<or> \<not> isdigit (hd rest)) \<longrightarrow>
      extract_tweet_id_from_filename f = Some ds \<and>
      (\<forall>e\<in>set es. e_isfile e \<and> e_name e = f \<longrightarrow>
         (\<exists>files. map_of (files_by_tweet_id es) ds = Some files \<and> f \<in> set files))) \<and>
   (f = [] \<or> \<not> isdigit (hd f) \<longrightarrow>
      extract_tweet_id_from_filename f = None \<and>
      (\<forall>(k, files)\<in>set (files_by_tweet_id es). f \<notin> set files))"
proof (intro conjI impI)
  assume a: "f = ds @ rest \<and> ds \<noteq> [] \<and> (\<forall>c\<in>set ds. isdigit c) \<and> (rest = [] \<or> \<not> isdigit (hd rest))"
  then show x: "extract_tweet_id_from_filename f = Some ds"
    using extract_maximal[of f ds rest] by blast
  show "\<forall>e\<in>set es. e_isfile e \<and> e_name e = f \<longrightarrow>
         (\<exists>files. map_of (files_by_tweet_id es) ds = Some files \<and> f \<in> set files)"
    using foldl_group_step_complete[of _ es ds "[]"] x
    unfolding files_by_tweet_id_def by blast
next
  assume b: "f = [] \<or> \<not> isdigit (hd f)"
  then show n: "extract_tweet_id_from_filename f = None" by (rule extract_none)
  show "\<forall>(k, files)\<in>set (files_by_tweet_id es). f \<notin> set files"
    using files_by_tweet_id_sound[of es] n unfolding groups_sound_def by fastforce
qed

theorem grouping_completeness_witness:
  "extract_tweet_id_from_filename ''111_20200101.jpg'' = Some ''111'' \<and>
   (\<exists>files. map_of (files_by_tweet_id alice_dir) ''111'' = Some files \<and>
      ''111_20200101.jpg'' \<in> set files) \<and>
   extract_tweet_id_from_filename ''notes.txt'' = None \<and>
   list_all (\<lambda>(k, files). ''notes.txt'' \<notin> set files) (files_by_tweet_id alice_dir)"
proof -
  have h1: "''111_20200101.jpg'' = ''111'' @ ''_20200101.jpg'' \<and> ''111'' \<noteq> [] \<and>
      (\<forall>c\<in>set ''111''. isdigit c) \<and>
      (''_20200101.jpg'' = [] \<or> \<not> isdigit (hd ''_20200101.jpg''))"
    by (simp add: isdigit_def)
  have h2: "regular_file ''111_20200101.jpg'' None (Some 1600000000) \<in> set alice_dir \<and>
      e_isfile (regular_file ''111_20200101.jpg'' None (Some 1600000000)) \<and>
      e_name (regular_file ''111_20200101.jpg'' None (Some 1600000000)) = ''111_20200101.jpg''"
    by (simp add: alice_dir_def regular_file_def)
  have h3: "''notes.txt'' = [] \<or> \<not> isdigit (hd ''notes.txt'')"
    by (simp add: isdigit_def)
  from grouping_completeness [of "''111_20200101.jpg''" "''111''" "''_20200101.jpg''" alice_dir] h1 h2
  have a: "extract_tweet_id_from_filename ''111_20200101.jpg'' = Some ''111'' \<and>
     (\<exists>files. map_of (files_by_tweet_id alice_dir) ''111'' = Some files \<and>
        ''111_20200101.jpg'' \<in> set files)"
    by blast
  from grouping_completeness [of "''notes.txt''" "[]" "[]" alice_dir] h3
  have b: "extract_tweet_id_from_filename ''notes.txt'' = None \<and>
     (\<forall>(k, files)\<in>set (files_by_tweet_id alice_dir). ''notes.txt'' \<notin> set files)"
    by blast
  from a b show ?thesis unfolding list_all_iff by blast
qed

section \<open>Post Extractor: media files\<close>

lemma media_files_read_json [simp]: "media_files (read_json E es fl p) = media_files p"
  by (simp add: read_json_def split: option.splits json.splits)

lemma media_files_read_txt [simp]: "media_files (read_txt E es fl p) = media_files p"
  by (simp add: read_txt_def split: option.splits list.splits)

lemma lower_MEDIA_EXTENSIONS: "map lower MEDIA_EXTENSIONS = MEDIA_EXTENSIONS"
  by code_simp

lemma media_files_extract_post_data:
  "media_files (extract_post_data E uname uid es tweet_id fl) = collect_media uname fl"
  by (simp add: extract_post_data_def)

lemma build_post_Inr:
  "build_post E uname uid es tweet_id fl = Inr p \<Longrightarrow>
     \<exists>t. parse_timestamp E tweet_id es fl = Inr t \<and>
         p = (extract_post_data E uname uid es tweet_id fl)\<lparr>timestamp := t\<rparr>"
  by (auto simp: build_post_def split: sum.splits)

text \<open>
  C10. The media paths of an extracted post are those of exactly the files of its group
  whose lower-cased name ends with one of the recognised extensions, which are all in
  lower case; the case of the file name plays no part. This holds of the record the
  extractor fills and of the post built from it.
\<close>

theorem media_recognition_ignores_case:
  "media_files (extract_post_data E uname uid es tweet_id associated_files) =
     map (media_path uname)
       (filter (\<lambda>filename. \<exists>ext\<in>set MEDIA_EXTENSIONS. endswith (lower filename) ext)
          associated_files) \<and>
   (build_post E uname uid es tweet_id associated_files = Inr p \<longrightarrow>
      media_files p =
        map (media_path uname)
          (filter (\<lambda>filename. \<exists>ext\<in>set MEDIA_EXTENSIONS. endswith (lower filename) ext)
             associated_files)) \<and>
   map lower MEDIA_EXTENSIONS = MEDIA_EXTENSIONS"
proof (intro conjI impI)
  show a: "media_files (extract_post_data E uname uid es tweet_id associated_files) =
     map (media_path uname)
       (filter (\<lambda>filename. \<exists>ext\<in>set MEDIA_EXTENSIONS. endswith (lower filename) ext)
          associated_files)"
    by (simp add: media_files_extract_post_data collect_media_def endswith_any_def list_ex_iff)
  show "map lower MEDIA_EXTENSIONS = MEDIA_EXTENSIONS" by (rule lower_MEDIA_EXTENSIONS)
  assume "build_post E uname uid es tweet_id associated_files = Inr p"
  from build_post_Inr [OF this] a
  show "media_files p =
        map (media_path uname)
          (filter (\<lambda>filename. \<exists>ext\<in>set MEDIA_EXTENSIONS. endswith (lower filename) ext)
             associated_files)"
    by auto
qed

theorem media_recognition_ignores_case_witness:
  "media_files (extract_post_data example_env ''alice'' 1 alice_dir ''7''
      [''7_1.JPG'', ''7_2.Mp4'', ''7_3.jpg'', ''7.json'', ''7_4.jpg.txt'']) =
     [''alice/7_1.JPG'', ''alice/7_2.Mp4'', ''alice/7_3.jpg''] \<and>
   (\<exists>p. build_post example_env ''alice'' 1 alice_dir ''7''
          [''7_1.JPG'', ''7_2.Mp4'', ''7_3.jpg'', ''7.json'', ''7_4.jpg.txt''] = Inr p \<and>
        media_files p = [''alice/7_1.JPG'', ''alice/7_2.Mp4'', ''alice/7_3.jpg''])"
proof -
  let ?fl = "[''7_1.JPG'', ''7_2.Mp4'', ''7_3.jpg'', ''7.json'', ''7_4.jpg.txt'']"
  let ?p = "(extract_post_data example_env ''alice'' 1 alice_dir ''7'' ?fl)\<lparr>timestamp := None\<rparr>"
  have v: "map (media_path ''alice'')
       (filter (\<lambda>filename. \<exists>ext\<in>set MEDIA_EXTENSIONS. endswith (lower filename) ext) ?fl) =
     [''alice/7_1.JPG'', ''alice/7_2.Mp4'', ''alice/7_3.jpg'']"
    by code_simp
  have b: "build_post example_env ''alice'' 1 alice_dir ''7'' ?fl = Inr ?p"
    by code_simp
  note m = media_recognition_ignores_case [of example_env "''alice''" 1 alice_dir "''7''" ?fl ?p]
  from m have 1: "media_files (extract_post_data example_env ''alice'' 1 alice_dir ''7'' ?fl) =
     [''alice/7_1.JPG'', ''alice/7_2.Mp4'', ''alice/7_3.jpg'']"
    unfolding v by (rule conjunct1)
  from m [THEN conjunct2, THEN conjunct1, THEN mp, OF b]
  have 2: "media_files ?p = [''alice/7_1.JPG'', ''alice/7_2.Mp4'', ''alice/7_3.jpg'']"
    unfolding v .
  from b 2 have "\<exists>p. build_post example_env ''alice'' 1 alice_dir ''7'' ?fl = Inr p \<and>
        media_files p = [''alice/7_1.JPG'', ''alice/7_2.Mp4'', ''alice/7_3.jpg'']"
    by (intro exI [of _ ?p] conjI)
  with 1 show ?thesis by (rule conjI)
qed

section \<open>Timestamp Resolver\<close>

lemma json_date_of_record:
  assumes "find (\<lambda>f. endswith f ''.json'') files = Some jf" "read_text es jf = Some doc"
    "json_load E doc = Some (JObj kvs)" "map_of kvs ''date'' = Some (JStr s)" "s \<noteq> []"
  shows "json_date E es files = strptime E s"
  using assms by (simp add: json_date_def get_def dict_get_def)

text \<open>
  C3. When the group's metadata file parses to a record whose \<open>date\<close> field is a string
  that parses as a timestamp, the resolver returns that value, whatever the caption file
  and the file names hold; and in general the chain stops at the first source that
  yields a value: metadata date, caption first line, epoch in a file name, modification
  time.
\<close>

theorem timestamp_priority:
  "(find (\<lambda>f. endswith f ''.json'') files = Some jf \<and> read_text es jf = Some doc \<and>
    json_load E doc = Some (JObj kvs) \<and> map_of kvs ''date'' = Some (JStr s) \<and> s \<noteq> [] \<and>
    strptime E s = Some t
      \<longrightarrow> parse_timestamp E post_id es files = Inr (Some t)) \<and>
   (json_date E es files = None \<and> txt_date E es files = Some t
      \<longrightarrow> parse_timestamp E post_id es files = Inr (Some t)) \<and>
   (json_date E es files = None \<and> txt_date E es files = None \<and>
    name_date E files = Inr (Some t)
      \<longrightarrow> parse_timestamp E post_id es files = Inr (Some t)) \<and>
   (json_date E es files = None \<and> txt_date E es files = None \<and> name_date E files = Inr None
      \<longrightarrow> parse_timestamp E post_id es files = mtime_date E es files)"
proof (intro conjI impI)
  assume a: "find (\<lambda>f. endswith f ''.json'') files = Some jf \<and> read_text es jf = Some doc \<and>
    json_load E doc = Some (JObj kvs) \<and> map_of kvs ''date'' = Some (JStr s) \<and> s \<noteq> [] \<and>
    strptime E s = Some t"
  then have "json_date E es files = Some t"
    using json_date_of_record [of files jf es doc E kvs s] by simp
  then show "parse_timestamp E post_id es files = Inr (Some t)"
    by (simp add: parse_timestamp_def)
qed (simp_all add: parse_timestamp_def)

theorem timestamp_priority_witness:
  "txt_date example_env three_sources_dir [''7_1600000000.jpg'', ''7.json'', ''7.txt''] = Some date_b \<and>
   name_date example_env [''7_1600000000.jpg'', ''7.json'', ''7.txt''] = Inr (Some date_c) \<and>
   date_a \<noteq> date_b \<and> date_a \<noteq> date_c \<and> date_b \<noteq> date_c \<and>
   parse_timestamp example_env ''7'' three_sources_dir [''7_1600000000.jpg'', ''7.json'', ''7.txt'']
     = Inr (Some date_a)"
proof -
  have h: "find (\<lambda>f. endswith f ''.json'') [''7_1600000000.jpg'', ''7.json'', ''7.txt''] = Some ''7.json'' \<and>
    read_text three_sources_dir ''7.json'' = Some doc_post \<and>
    json_load example_env doc_post =
      Some (JObj [(''date'', JStr ''2020-01-01 10:00:00''), (''full_text'', JStr ''hi'')]) \<and>
    map_of [(''date'', JStr ''2020-01-01 10:00:00''), (''full_text'', JStr ''hi'')] ''date''
      = Some (JStr ''2020-01-01 10:00:00'') \<and>
    ''2020-01-01 10:00:00'' \<noteq> [] \<and>
    strptime example_env ''2020-01-01 10:00:00'' = Some date_a"
    by code_simp
  have t: "txt_date example_env three_sources_dir [''7_1600000000.jpg'', ''7.json'', ''7.txt''] = Some date_b"
    by code_simp
  have n: "name_date example_env [''7_1600000000.jpg'', ''7.json'', ''7.txt''] = Inr (Some date_c)"
    by code_simp
  have d: "date_a \<noteq> date_b \<and> date_a \<noteq> date_c \<and> date_b \<noteq> date_c"
    by code_simp
  from timestamp_priority [of "[''7_1600000000.jpg'', ''7.json'', ''7.txt'']" "''7.json''"
      three_sources_dir doc_post example_env
      "[(''date'', JStr ''2020-01-01 10:00:00''), (''full_text'', JStr ''hi'')]"
      "''2020-01-01 10:00:00''" date_a "''7''"] h
  have "parse_timestamp example_env ''7'' three_sources_dir
      [''7_1600000000.jpg'', ''7.json'', ''7.txt''] = Inr (Some date_a)"
    by blast
  with t n d show ?thesis by blast
qed

lemma name_date_accepts_in_range:
  "name_date E files = Inr (Some t) \<Longrightarrow>
     \<exists>f\<in>set files. \<exists>ts. search_digits_9_11 (splitext_root f) = Some ts \<and>
        946684800 \<le> int_of_digits ts \<and> int_of_digits ts < 2524608000 \<and>
        fromtimestamp E (of_int (int_of_digits ts)) = Inr t"
proof (induction files)
  case Nil
  then show ?case by simp
next
  case (Cons f files)
  show ?case
  proof (cases "search_digits_9_11 (splitext_root f)")
    case None
    with Cons show ?thesis by simp
  next
    case (Some ts)
    show ?thesis
    proof (cases "946684800 \<le> int_of_digits ts \<and> int_of_digits ts < 2524608000")
      case False
      with Some Cons.prems have "name_date E files = Inr (Some t)"
        by (auto simp: Let_def)
      with Cons.IH show ?thesis by auto
    next
      case True
      show ?thesis
      proof (cases "fromtimestamp E (of_int (int_of_digits ts))")
        case (Inr t')
        with Some True Cons.prems have "t' = t" by (simp add: Let_def)
        with Some True Inr show ?thesis by auto
      next
        case (Inl e)
        with Some True Cons.prems have "name_date E files = Inr (Some t)"
          by (auto simp: Let_def split: if_splits)
        with Cons.IH show ?thesis by auto
      qed
    qed
  qed
qed

lemma name_date_rejects_out_of_range:
  "\<forall>f\<in>set files. \<forall>ts. search_digits_9_11 (splitext_root f) = Some ts \<longrightarrow>
      \<not> (946684800 \<le> int_of_digits ts \<and> int_of_digits ts < 2524608000) \<Longrightarrow>
   name_date E files = Inr None"
  by (induction files) (auto simp: Let_def split: option.splits)

text \<open>
  C9. The epoch source accepts a digit run of a file name only when its value lies in
  [946684800, 2524608000): a timestamp it returns comes from such a run, and when the
  metadata and caption sources yield nothing and every run found lies outside the range
  (as the run \<open>0000000001\<close>, value 1, does) the resolver falls through to the
  modification time of the group's first file.
\<close>

theorem epoch_bounds:
  "(name_date E files = Inr (Some t) \<longrightarrow>
      (\<exists>f\<in>set files. \<exists>ts. search_digits_9_11 (splitext_root f) = Some ts \<and>
         946684800 \<le> int_of_digits ts \<and> int_of_digits ts < 2524608000 \<and>
         fromtimestamp E (of_int (int_of_digits ts)) = Inr t)) \<and>
   (json_date E es files = None \<and> txt_date E es files = None \<and>
    (\<forall>f\<in>set files. \<forall>ts. search_digits_9_11 (splitext_root f) = Some ts \<longrightarrow>
        \<not> (946684800 \<le> int_of_digits ts \<and> int_of_digits ts < 2524608000))
      \<longrightarrow> parse_timestamp E post_id es files = mtime_date E es files)"
proof (intro conjI impI)
  assume "name_date E files = Inr (Some t)"
  then show "\<exists>f\<in>set files. \<exists>ts. search_digits_9_11 (splitext_root f) = Some ts \<and>
         946684800 \<le> int_of_digits ts \<and> int_of_digits ts < 2524608000 \<and>
         fromtimestamp E (of_int (int_of_digits ts)) = Inr t"
    by (rule name_date_accepts_in_range)
next
  assume a: "json_date E es files = None \<and> txt_date E es files = None \<and>
    (\<forall>f\<in>set files. \<forall>ts. search_digits_9_11 (splitext_root f) = Some ts \<longrightarrow>
        \<not> (946684800 \<le> int_of_digits ts \<and> int_of_digits ts < 2524608000))"
  then have "name_date E files = Inr None"
    using name_date_rejects_out_of_range [of files E] by blast
  with a show "parse_timestamp E post_id es files = mtime_date E es files"
    by (simp add: parse_timestamp_def)
qed

theorem epoch_bounds_witness:
  "search_digits_9_11 (splitext_root ''0000000001.jpg'') = Some ''0000000001'' \<and>
   int_of_digits ''0000000001'' = 1 \<and>
   json_date example_env low_epoch_dir [''0000000001.jpg''] = None \<and>
   txt_date example_env low_epoch_dir [''0000000001.jpg''] = None \<and>
   parse_timestamp example_env ''0000000001'' low_epoch_dir [''0000000001.jpg'']
     = mtime_date example_env low_epoch_dir [''0000000001.jpg''] \<and>
   mtime_date example_env low_epoch_dir [''0000000001.jpg''] = Inr (Some date_c)"
proof -
  have s: "search_digits_9_11 (splitext_root ''0000000001.jpg'') = Some ''0000000001''"
    by code_simp
  have i: "int_of_digits ''0000000001'' = 1"
    by code_simp
  have j: "json_date example_env low_epoch_dir [''0000000001.jpg''] = None"
    by code_simp
  have x: "txt_date example_env low_epoch_dir [''0000000001.jpg''] = None"
    by code_simp
  have m: "mtime_date example_env low_epoch_dir [''0000000001.jpg''] = Inr (Some date_c)"
    by code_simp
  have r: "\<forall>f\<in>set [''0000000001.jpg'']. \<forall>ts. search_digits_9_11 (splitext_root f) = Some ts \<longrightarrow>
        \<not> (946684800 \<le> int_of_digits ts \<and> int_of_digits ts < 2524608000)"
    using s i by simp
  from epoch_bounds [of example_env "[''0000000001.jpg'']" date_c low_epoch_dir "''0000000001''"] j x r
  have "parse_timestamp example_env ''0000000001'' low_epoch_dir [''0000000001.jpg'']
     = mtime_date example_env low_epoch_dir [''0000000001.jpg'']"
    by blast
  with s i j x m show ?thesis by blast
qed

section \<open>Post Extractor: the body\<close>

lemma concat_lines_from: "concat (lines_from cur s) = cur @ s"
  by (induction s arbitrary: cur) auto

lemma concat_readlines: "concat (readlines s) = s"
  by (simp add: readlines_def concat_lines_from)

lemma readlines_empty: "readlines s = [] \<longleftrightarrow> s = []"
proof
  assume "readlines s = []"
  then have "concat (readlines s) = []" by simp
  then show "s = []" by (simp add: concat_readlines)
next
  assume "s = []" then show "readlines s = []" by (simp add: readlines_def)
qed

lemma readlines_rest:
  assumes "readlines s = line0 # others"
  shows "readline s = line0" and "concat others = drop (length line0) s"
proof -
  show "readline s = line0" using assms by (simp add: readline_def)
  have "line0 @ concat others = s"
    using concat_readlines [of s] assms by simp
  then show "concat others = drop (length line0) s" by auto
qed

lemma json_text_first_truthy:
  "json_text JNull kvs =
     (case find truthy [dict_get kvs ''full_text'' JNull, dict_get kvs ''content'' JNull,
                        dict_get kvs ''text'' JNull] of
        Some v \<Rightarrow> v
      | None \<Rightarrow> dict_get kvs ''text'' JNull)"
  by (auto simp: json_text_def py_or_def has_key_def dict_get_def split: option.splits)

lemma text_content_read_json:
  assumes "find (\<lambda>f. endswith f ''.json'') files = Some jf" "read_text es jf = Some doc"
    "json_load E doc = Some (JObj kvs)"
  shows "text_content (read_json E es files (temp_post_data tweet_id uid)) = json_text JNull kvs"
  using assms by (simp add: read_json_def temp_post_data_def)

lemma text_content_read_txt:
  "text_content (read_txt E es files p) =
     (if truthy (text_content p) then text_content p
      else case caption_body E es files of Some b \<Rightarrow> JStr b | None \<Rightarrow> text_content p)"
proof (cases "find (\<lambda>f. endswith f ''.txt'') files")
  case None
  then show ?thesis by (simp add: read_txt_def caption_body_def)
next
  case (Some tf)
  show ?thesis
  proof (cases "read_text es tf")
    case None
    with Some show ?thesis by (simp add: read_txt_def caption_body_def)
  next
    case (Some content)
    note c = \<open>find (\<lambda>f. endswith f ''.txt'') files = Some tf\<close> Some
    show ?thesis
    proof (cases "readlines content")
      case Nil
      then have "content = []" by (simp add: readlines_empty)
      with c Nil show ?thesis by (simp add: read_txt_def caption_body_def)
    next
      case (Cons line0 others)
      then have ne: "content \<noteq> []" using readlines_empty [of content] by auto
      from readlines_rest [OF Cons]
      have r: "readline content = line0" "concat others = drop (length line0) content" .
      have w: "concat (line0 # others) = content" using concat_readlines [of content] Cons by simp
      show ?thesis
      proof (cases "strptime E (strip line0)")
        case None
        with c Cons ne r w show ?thesis
          by (simp add: read_txt_def caption_body_def del: concat.simps)
      next
        case (Some t)
        with c Cons ne r show ?thesis
          by (simp add: read_txt_def caption_body_def)
      qed
    qed
  qed
qed

lemma text_content_built:
  "build_post E uname uid es tweet_id fl = Inr p \<Longrightarrow>
     text_content p = text_content (extract_post_data E uname uid es tweet_id fl)"
  by (auto dest: build_post_Inr)

text \<open>
  C8, as the code has it. When the metadata file parses to a record, the body is the
  first of the values of \<open>full_text\<close>, \<open>content\<close>, \<open>text\<close> that is true in Python's sense
  (not \<open>None\<close>, not empty, not zero). When none is, the body is what the caption file
  gives: its text, stripped, without the first line when that line parses as a
  timestamp and with all lines otherwise; and without a readable, non-empty caption file
  it is the value of \<open>text\<close>, if any. This holds of the record the extractor fills and
  of the post built from it.
\<close>

theorem body_extraction:
  "find (\<lambda>f. endswith f ''.json'') files = Some jf \<and> read_text es jf = Some doc \<and>
   json_load E doc = Some (JObj kvs)
     \<longrightarrow> text_content (extract_post_data E uname uid es tweet_id files) =
       (case find truthy [dict_get kvs ''full_text'' JNull, dict_get kvs ''content'' JNull,
                          dict_get kvs ''text'' JNull] of
          Some v \<Rightarrow> v
        | None \<Rightarrow>
            (case caption_body E es files of
               Some b \<Rightarrow> JStr b
             | None \<Rightarrow> dict_get kvs ''text'' JNull)) \<and>
       (build_post E uname uid es tweet_id files = Inr p \<longrightarrow>
          text_content p =
            (case find truthy [dict_get kvs ''full_text'' JNull, dict_get kvs ''content'' JNull,
                               dict_get kvs ''text'' JNull] of
               Some v \<Rightarrow> v
             | None \<Rightarrow>
                 (case caption_body E es files of
                    Some b \<Rightarrow> JStr b
                  | None \<Rightarrow> dict_get kvs ''text'' JNull)))"
proof
  assume a: "find (\<lambda>f. endswith f ''.json'') files = Some jf \<and> read_text es jf = Some doc \<and>
   json_load E doc = Some (JObj kvs)"
  let ?vals = "[dict_get kvs ''full_text'' JNull, dict_get kvs ''content'' JNull,
                dict_get kvs ''text'' JNull]"
  let ?body = "case find truthy ?vals of
          Some v \<Rightarrow> v
        | None \<Rightarrow>
            (case caption_body E es files of
               Some b \<Rightarrow> JStr b
             | None \<Rightarrow> dict_get kvs ''text'' JNull)"
  have j: "text_content (read_json E es files (temp_post_data tweet_id uid)) = json_text JNull kvs"
    using a text_content_read_json [of files jf es doc E kvs tweet_id uid] by blast
  have b: "text_content (extract_post_data E uname uid es tweet_id files) =
      (if truthy (json_text JNull kvs) then json_text JNull kvs
       else case caption_body E es files of Some b \<Rightarrow> JStr b | None \<Rightarrow> json_text JNull kvs)"
    by (simp add: extract_post_data_def text_content_read_txt j split: option.splits)
  have x: "text_content (extract_post_data E uname uid es tweet_id files) = ?body"
  proof (cases "find truthy ?vals")
    case None
    then have "\<not> truthy (json_text JNull kvs)" "json_text JNull kvs = dict_get kvs ''text'' JNull"
      by (auto simp: json_text_first_truthy split: if_splits)
    with b None show ?thesis by (simp split: option.splits)
  next
    case (Some v)
    then have "truthy v" by (auto split: if_splits)
    with b Some show ?thesis by (simp add: json_text_first_truthy)
  qed
  have y: "build_post E uname uid es tweet_id files = Inr p \<longrightarrow> text_content p = ?body"
    using x text_content_built [of E uname uid es tweet_id files p] by simp
  from x y show "text_content (extract_post_data E uname uid es tweet_id files) = ?body \<and>
       (build_post E uname uid es tweet_id files = Inr p \<longrightarrow> text_content p = ?body)"
    by (rule conjI)
qed

theorem body_extraction_witness:
  "text_content (extract_post_data example_env ''alice'' 1 empty_text_dir ''5'' [''5.json''])
     = JStr ''hello'' \<and>
   (\<exists>p. build_post example_env ''alice'' 1 empty_text_dir ''5'' [''5.json''] = Inr p \<and>
        text_content p = JStr ''hello'') \<and>
   text_content (extract_post_data example_env ''alice'' 1 caption_dir ''6'' [''6.json'', ''6.txt''])
     = JStr ''second line''"
proof -
  let ?kv1 = "[(''full_text'', JStr []), (''content'', JStr ''hello'')]"
  let ?kv2 = "[(''retweet_count'', JInt 3)]"
  let ?p = "(extract_post_data example_env ''alice'' 1 empty_text_dir ''5'' [''5.json''])
              \<lparr>timestamp := Some date_c\<rparr>"
  have h1: "find (\<lambda>f. endswith f ''.json'') [''5.json''] = Some ''5.json'' \<and>
      read_text empty_text_dir ''5.json'' = Some doc_empty_text \<and>
      json_load example_env doc_empty_text = Some (JObj ?kv1)"
    by code_simp
  have v1: "(case find truthy
               [dict_get ?kv1 ''full_text'' JNull, dict_get ?kv1 ''content'' JNull,
                dict_get ?kv1 ''text'' JNull] of
          Some v \<Rightarrow> v
        | None \<Rightarrow>
            (case caption_body example_env empty_text_dir [''5.json''] of
               Some b \<Rightarrow> JStr b
             | None \<Rightarrow> dict_get ?kv1 ''text'' JNull))
      = JStr ''hello''"
    by code_simp
  have h2: "find (\<lambda>f. endswith f ''.json'') [''6.json'', ''6.txt''] = Some ''6.json'' \<and>
      read_text caption_dir ''6.json'' = Some doc_counts \<and>
      json_load example_env doc_counts = Some (JObj ?kv2)"
    by code_simp
  have v2: "(case find truthy
               [dict_get ?kv2 ''full_text'' JNull, dict_get ?kv2 ''content'' JNull,
                dict_get ?kv2 ''text'' JNull] of
          Some v \<Rightarrow> v
        | None \<Rightarrow>
            (case caption_body example_env caption_dir [''6.json'', ''6.txt''] of
               Some b \<Rightarrow> JStr b
             | None \<Rightarrow> dict_get ?kv2 ''text'' JNull))
      = JStr ''second line''"
    by code_simp
  have bp: "build_post example_env ''alice'' 1 empty_text_dir ''5'' [''5.json''] = Inr ?p"
    by code_simp
  note t1 = body_extraction [of "[''5.json'']" "''5.json''" empty_text_dir doc_empty_text
      example_env ?kv1 "''alice''" 1 "''5''" ?p, THEN mp, OF h1, unfolded v1]
  note t2 = body_extraction [of "[''6.json'', ''6.txt'']" "''6.json''" caption_dir doc_counts
      example_env ?kv2 "''alice''" 1 "''6''" ?p, THEN mp, OF h2, unfolded v2]
  from t1 [THEN conjunct2, THEN mp, OF bp] bp
  have e: "\<exists>p. build_post example_env ''alice'' 1 empty_text_dir ''5'' [''5.json''] = Inr p \<and>
        text_content p = JStr ''hello''"
    by (intro exI [of _ ?p] conjI)
  show ?thesis
    by (intro conjI) (rule t1 [THEN conjunct1] e t2 [THEN conjunct1])+
qed

text \<open>
  C8 as stated fails: for the record \<open>{"full_text": "", "content": "hello"}\<close> the first
  field that is present is \<open>full_text\<close>, with the empty string as its value, and the
  extracted body is \<open>hello\<close>.
\<close>

theorem body_is_not_first_present_field:
  "json_load example_env doc_empty_text =
     Some (JObj [(''full_text'', JStr []), (''content'', JStr ''hello'')]) \<and>
   first_present_field [(''full_text'', JStr []), (''content'', JStr ''hello'')] = JStr [] \<and>
   map_sum id text_content (build_post example_env ''alice'' 1 empty_text_dir ''5'' [''5.json''])
     = Inr (JStr ''hello'') \<and>
   text_content (extract_post_data example_env ''alice'' 1 empty_text_dir ''5'' [''5.json''])
     = JStr ''hello'' \<and>
   text_content (extract_post_data example_env ''alice'' 1 empty_text_dir ''5'' [''5.json'']) \<noteq>
     first_present_field [(''full_text'', JStr []), (''content'', JStr ''hello'')]"
  by code_simp

section \<open>Author Aggregator: the profile refresh\<close>

text \<open>
  A key that the selected record lacks leaves the stored value as it was.
\<close>

lemma refresh_user_absent_key:
  "map_of d ''followers_count'' = None \<Longrightarrow>
     followers_count (refresh_user u d) = followers_count u"
  by (simp add: refresh_user_def dict_get_def)

lemma refresh_user_absent_keys:
  "(map_of d ''name'' = None \<longrightarrow> name (refresh_user u d) = name u) \<and>
   (map_of d ''nick'' = None \<longrightarrow> nick (refresh_user u d) = nick u) \<and>
   (map_of d ''location'' = None \<longrightarrow> location (refresh_user u d) = location u) \<and>
   (map_of d ''description'' = None \<longrightarrow> description (refresh_user u d) = description u) \<and>
   (map_of d ''verified'' = None \<longrightarrow> verified (refresh_user u d) = verified u) \<and>
   (map_of d ''profile_image'' = None \<longrightarrow>
      profile_image_url (refresh_user u d) = profile_image_url u) \<and>
   (map_of d ''favourites_count'' = None \<longrightarrow>
      favourites_count (refresh_user u d) = favourites_count u) \<and>
   (map_of d ''followers_count'' = None \<longrightarrow>
      followers_count (refresh_user u d) = followers_count u) \<and>
   (map_of d ''friends_count'' = None \<longrightarrow> friends_count (refresh_user u d) = friends_count u) \<and>
   (map_of d ''listed_count'' = None \<longrightarrow> listed_count (refresh_user u d) = listed_count u) \<and>
   (map_of d ''media_count'' = None \<longrightarrow> media_count (refresh_user u d) = media_count u) \<and>
   (map_of d ''statuses_count'' = None \<longrightarrow>
      statuses_count (refresh_user u d) = statuses_count u)"
  by (simp add: refresh_user_def dict_get_def)

text \<open>A key that is present overwrites the stored value, whatever its value is.\<close>

lemma refresh_user_present_key:
  "map_of d ''followers_count'' = Some v \<Longrightarrow> followers_count (refresh_user u d) = v"
  by (simp add: refresh_user_def dict_get_def)

lemma refresh_user_empty: "refresh_user u [] = u"
  by (simp add: refresh_user_def dict_get_def)

text \<open>
  C6. A field is to be overwritten only by a value that is not absent, and never
  cleared. The code overwrites it whenever the key is present: with the selected record
  \<open>{"nick": "alice", "followers_count": null}\<close> a stored followers count of 100
  becomes \<open>None\<close>.
\<close>

theorem null_clears_followers_count:
  "map followers_count (users followed_db) = [JInt 100] \<and>
   map followers_count
     (users (snd (process_and_cache_user_posts example_env author_archive ''alice'' False followed_db)))
     = [JNull]"
  by code_simp

section \<open>The scan of the groups\<close>

lemma p_id_read_json [simp]: "p_id (read_json E es fl p) = p_id p"
  by (simp add: read_json_def split: option.splits json.splits)

lemma p_id_read_txt [simp]: "p_id (read_txt E es fl p) = p_id p"
  by (simp add: read_txt_def split: option.splits list.splits)

lemma user_id_read_json [simp]: "user_id (read_json E es fl p) = user_id p"
  by (simp add: read_json_def split: option.splits json.splits)

lemma user_id_read_txt [simp]: "user_id (read_txt E es fl p) = user_id p"
  by (simp add: read_txt_def split: option.splits list.splits)

lemma p_id_extract_post_data [simp]: "p_id (extract_post_data E uname uid es tweet_id fl) = tweet_id"
  by (simp add: extract_post_data_def temp_post_data_def)

lemma user_id_extract_post_data [simp]: "user_id (extract_post_data E uname uid es tweet_id fl) = uid"
  by (simp add: extract_post_data_def temp_post_data_def)

lemma build_post_ids:
  "build_post E uname uid es tweet_id fl = Inr p \<Longrightarrow> p_id p = tweet_id \<and> user_id p = uid"
  by (auto dest: build_post_Inr)

lemma stored_row_ids [simp]:
  "p_id (stored_row E p) = p_id p" "user_id (stored_row E p) = user_id p"
  "timestamp (stored_row E p) = timestamp p" "media_files (stored_row E p) = media_files p"
  "raw_json_data (stored_row E p) = raw_json_data p"
  by (simp_all add: stored_row_def)


lemma get_post_None: "get_post ps tweet_id = None \<longleftrightarrow> tweet_id \<notin> p_id ` set ps"
  by (auto simp: get_post_def find_None_iff)



lemma scan_groups_all_known:
  "\<forall>(tweet_id, fl)\<in>set groups. tweet_id \<in> p_id ` set stored \<Longrightarrow>
   scan_groups E uname uid es stored groups [] = Inr []"
  by (induction groups) (auto simp: get_post_None)

lemma scan_groups_extends:
  "scan_groups E uname uid es stored groups pending = Inr res \<Longrightarrow> \<exists>xs. res = pending @ xs"
proof (induction groups arbitrary: pending)
  case Nil
  then show ?case by simp
next
  case (Cons g groups)
  obtain tweet_id fl where g: "g = (tweet_id, fl)" by (cases g)
  from Cons.prems g have ok: "list_all (insert_ok E) pending" by (auto split: if_splits)
  show ?case
  proof (cases "get_post (stored @ pending) tweet_id \<noteq> None")
    case True
    with Cons.prems g ok have "scan_groups E uname uid es stored groups pending = Inr res" by simp
    from Cons.IH [OF this] show ?thesis .
  next
    case False
    show ?thesis
    proof (cases "build_post E uname uid es tweet_id fl")
      case (Inl e)
      with Cons.prems g ok False show ?thesis by simp
    next
      case (Inr p)
      with Cons.prems g ok False
      have "scan_groups E uname uid es stored groups (pending @ [p]) = Inr res" by simp
      from Cons.IH [OF this] show ?thesis by auto
    qed
  qed
qed

text \<open>After a scan that returns, every group's identifier is stored or pending.\<close>

lemma scan_groups_covers:
  "scan_groups E uname uid es stored groups pending = Inr res \<Longrightarrow>
   (tweet_id, fl) \<in> set groups \<Longrightarrow> tweet_id \<in> p_id ` set (stored @ res)"
proof (induction groups arbitrary: pending)
  case Nil
  then show ?case by simp
next
  case (Cons g groups)
  obtain t0 f0 where g: "g = (t0, f0)" by (cases g)
  from Cons.prems(1) g have ok: "list_all (insert_ok E) pending" by (auto split: if_splits)
  from scan_groups_extends [OF Cons.prems(1)] obtain xs where xs: "res = pending @ xs" by blast
  show ?case
  proof (cases "get_post (stored @ pending) t0 \<noteq> None")
    case True
    with Cons.prems(1) g ok have run: "scan_groups E uname uid es stored groups pending = Inr res"
      by simp
    show ?thesis
    proof (cases "(tweet_id, fl) = g")
      case same: True
      with g True have "tweet_id \<in> p_id ` set (stored @ pending)" by (simp add: get_post_None)
      with xs show ?thesis by auto
    next
      case False
      with Cons.prems(2) have "(tweet_id, fl) \<in> set groups" by simp
      from Cons.IH [OF run this] show ?thesis .
    qed
  next
    case False
    show ?thesis
    proof (cases "build_post E uname uid es t0 f0")
      case (Inl e)
      with Cons.prems(1) g ok False show ?thesis by simp
    next
      case (Inr p)
      with Cons.prems(1) g ok False
      have run: "scan_groups E uname uid es stored groups (pending @ [p]) = Inr res" by simp
      from scan_groups_extends [OF run] obtain ys where ys: "res = (pending @ [p]) @ ys" by blast
      have pid: "p_id p = t0" using build_post_ids [OF Inr] by simp
      show ?thesis
      proof (cases "(tweet_id, fl) = g")
        case True
        with g pid ys show ?thesis by auto
      next
        case False
        with Cons.prems(2) have "(tweet_id, fl) \<in> set groups" by simp
        from Cons.IH [OF run this] show ?thesis .
      qed
    qed
  qed
qed

section \<open>Sync Controller\<close>

lemma find_append_new: "find P xs = None \<Longrightarrow> P u \<Longrightarrow> find P (xs @ [u]) = Some u"
  by (induction xs) (auto split: if_splits)

lemma find_user_get_or_create:
  "get_or_create_user d h = (u, d1) \<Longrightarrow>
     find_user d1 h = Some u \<and> username u = h \<and> posts d1 = posts d"
proof (cases "find_user d h")
  case None
  assume a: "get_or_create_user d h = (u, d1)"
  from None have nf: "find (\<lambda>u. username u = h) (users d) = None" by (simp add: find_user_def)
  from a None have u: "u = new_user (new_user_id (users d)) h"
    and d1: "d1 = d\<lparr>users := users d @ [u]\<rparr>"
    by (auto simp: get_or_create_user_def Let_def)
  have "username u = h" using u by (simp add: new_user_def)
  moreover have "find (\<lambda>u. username u = h) (users d @ [u]) = Some u"
    using nf \<open>username u = h\<close> by (rule find_append_new)
  ultimately show ?thesis using d1 by (simp add: find_user_def)
next
  case (Some v)
  assume a: "get_or_create_user d h = (u, d1)"
  with Some have "u = v" "d1 = d" by (auto simp: get_or_create_user_def)
  moreover from Some have "username v = h"
    by (auto simp: find_user_def find_Some_iff)
  ultimately show ?thesis using Some by simp
qed

lemma find_replace_row:
  "find P xs = Some u \<Longrightarrow> P u' \<Longrightarrow>
     find P (map (\<lambda>x. if key x = key u then u' else x) xs) = Some u'"
  by (induction xs) (auto split: if_splits)

lemma u_id_refresh_user [simp]: "u_id (refresh_user u x) = u_id u"
  by (simp add: refresh_user_def)

lemma username_refresh_user [simp]: "username (refresh_user u x) = username u"
  by (simp add: refresh_user_def)

lemma posts_commit_user [simp]: "posts (commit_user E d u) = posts d"
  by (simp add: commit_user_def)

lemma find_user_commit_user:
  assumes "find_user d h = Some u" "username u' = h" "u_id u' = u_id u"
  shows "\<exists>v. find_user (commit_user E d u') h = Some v \<and> u_id v = u_id u"
proof (cases "user_commit_ok E u'")
  case True
  have "find (\<lambda>x. username x = h)
          (map (\<lambda>x. if u_id x = u_id u then stored_user E u' else x) (users d))
        = Some (stored_user E u')"
    using assms(1,2) by (intro find_replace_row) (simp_all add: find_user_def stored_user_def)
  with True assms(3) show ?thesis by (simp add: commit_user_def find_user_def stored_user_def)
next
  case False
  with assms(1) show ?thesis by (simp add: commit_user_def)
qed

lemma posts_refreshed_db [simp]: "posts (refreshed_db E es h d) = posts d"
proof -
  obtain u d1 where g: "get_or_create_user d h = (u, d1)" by (cases "get_or_create_user d h")
  with find_user_get_or_create [OF g] show ?thesis by (simp add: refreshed_db_def)
qed

lemma author_key_found: "find_user d h = Some u \<Longrightarrow> author_key d h = u_id u"
  by (simp add: author_key_def get_or_create_user_def)

lemma author_key_refreshed_db [simp]: "author_key (refreshed_db E es h d) h = author_key d h"
proof -
  obtain u d1 where g: "get_or_create_user d h = (u, d1)" by (cases "get_or_create_user d h")
  from find_user_get_or_create [OF g] have f: "find_user d1 h = Some u" "username u = h" by auto
  let ?u' = "refresh_user u (collect_user_json E es h (rev (sort (json_files_in_folder es))))"
  from find_user_commit_user [OF f(1), of ?u' E] f(2)
  obtain v where "find_user (commit_user E d1 ?u') h = Some v" "u_id v = u_id u" by auto
  then have "author_key (commit_user E d1 ?u') h = u_id u" by (simp add: author_key_found)
  with g show ?thesis by (simp add: refreshed_db_def author_key_def)
qed

lemma author_key_posts_update [simp]: "author_key (d\<lparr>posts := ps\<rparr>) h = author_key d h"
  by (simp add: author_key_def get_or_create_user_def find_user_def Let_def split: option.splits)

lemma sync_unfold:
  "fs h = Some (Some es) \<Longrightarrow>
   process_and_cache_user_posts E fs h force_rescan d =
     (if force_rescan
      then full_scan E fs h (author_key d h)
             (length (user_posts (refreshed_db E es h d) (author_key d h)))
             (delete_user_posts (refreshed_db E es h d) (author_key d h))
      else if user_posts (refreshed_db E es h d) (author_key d h) \<noteq> []
           then (Inr (0, 0), refreshed_db E es h d)
           else full_scan E fs h (author_key d h) 0 (refreshed_db E es h d))"
  by (simp add: process_and_cache_user_posts_def refreshed_db_def author_key_def Let_def
      split: prod.splits)

lemma full_scan_unfold:
  "fs h = Some (Some es) \<Longrightarrow>
   full_scan E fs h uid n d =
     (case scan_groups E h uid es (posts d) (files_by_tweet_id es) [] of
        Inl e \<Rightarrow> (Inl e, d)
      | Inr pending \<Rightarrow>
          (Inr (length pending, n),
           if list_all (insert_ok E) pending
           then d\<lparr>posts := posts d @ map (stored_row E) pending\<rparr>
           else d))"
  by (simp add: full_scan_def)

lemma user_posts_same_posts: "posts d' = posts d \<Longrightarrow> user_posts d' uid = user_posts d uid"
  by (simp add: user_posts_def)

text \<open>A sync without rescan of a store whose posts cover every group finds nothing to do.\<close>

lemma sync_nothing_to_add:
  assumes fs: "fs h = Some (Some es)"
    and cov: "\<forall>(tweet_id, fl)\<in>set (files_by_tweet_id es). tweet_id \<in> p_id ` set (posts d)"
  shows "fst (process_and_cache_user_posts E fs h False d) = Inr (0, 0) \<and>
         posts (snd (process_and_cache_user_posts E fs h False d)) = posts d"
proof -
  let ?d2 = "refreshed_db E es h d"
  have "scan_groups E h (author_key d h) es (posts ?d2) (files_by_tweet_id es) [] = Inr []"
    using cov by (intro scan_groups_all_known) simp
  then show ?thesis
    by (simp add: sync_unfold [where fs = fs and h = h, OF fs]
        full_scan_unfold [where fs = fs and h = h, OF fs])
qed

lemma sync_known_populated:
  assumes fs: "fs h = Some (Some es)"
    and pop: "user_posts d (author_key d h) \<noteq> []"
  shows "process_and_cache_user_posts E fs h False d = (Inr (0, 0), refreshed_db E es h d)"
proof -
  have "user_posts (refreshed_db E es h d) (author_key d h) = user_posts d (author_key d h)"
    by (rule user_posts_same_posts) simp
  with pop show ?thesis
    by (simp add: sync_unfold [where fs = fs and h = h, OF fs])
qed

text \<open>
  C1. When a sync without rescan has returned its counts and every post it counted as
  added is in the store, the same sync run again on the resulting store, with the file
  system unchanged, returns (0, 0) and leaves the posts as they are. And whenever the
  author's row exists with at least one stored post and the directory can be listed,
  the sync without rescan returns (0, 0) and its only effect is the profile refresh: no
  post is added or deleted.
\<close>

theorem sync_idempotent:
  "(process_and_cache_user_posts E fs h False d = (Inr (a, b), d1) \<and>
    length (posts d1) = length (posts d) + a
      \<longrightarrow> fst (process_and_cache_user_posts E fs h False d1) = Inr (0, 0) \<and>
          posts (snd (process_and_cache_user_posts E fs h False d1)) = posts d1) \<and>
   (fs h = Some (Some es) \<and> find_user d h = Some u \<and> user_posts d (u_id u) \<noteq> []
      \<longrightarrow> process_and_cache_user_posts E fs h False d = (Inr (0, 0), refreshed_db E es h d) \<and>
          posts (refreshed_db E es h d) = posts d)"
proof (intro conjI impI)
  assume a2: "fs h = Some (Some es) \<and> find_user d h = Some u \<and> user_posts d (u_id u) \<noteq> []"
  then have "user_posts d (author_key d h) \<noteq> []" by (simp add: author_key_found)
  with a2 show "process_and_cache_user_posts E fs h False d = (Inr (0, 0), refreshed_db E es h d)"
    using sync_known_populated [where fs = fs and h = h] by blast
  show "posts (refreshed_db E es h d) = posts d" by simp
next
  assume a1: "process_and_cache_user_posts E fs h False d = (Inr (a, b), d1) \<and>
    length (posts d1) = length (posts d) + a"
  then have run: "process_and_cache_user_posts E fs h False d = (Inr (a, b), d1)"
    and len: "length (posts d1) = length (posts d) + a" by auto
  have "fst (process_and_cache_user_posts E fs h False d1) = Inr (0, 0) \<and>
        posts (snd (process_and_cache_user_posts E fs h False d1)) = posts d1"
  proof (cases "fs h")
    case None
    with run have "d1 = d" by (simp add: process_and_cache_user_posts_def)
    with None show ?thesis by (simp add: process_and_cache_user_posts_def)
  next
    case (Some listing)
    show ?thesis
    proof (cases listing)
      case None
      with Some run show ?thesis
        by (simp add: process_and_cache_user_posts_def split: prod.splits)
    next
      case (Some es')
      with \<open>fs h = Some listing\<close> have fs: "fs h = Some (Some es')" by simp
      let ?uid = "author_key d h"
      let ?d2 = "refreshed_db E es' h d"
      show ?thesis
      proof (cases "user_posts ?d2 ?uid \<noteq> []")
        case True
        with run have d1: "d1 = ?d2"
          by (simp add: sync_unfold [where fs = fs and h = h, OF fs])
        from True d1 have "user_posts d1 (author_key d1 h) \<noteq> []" by simp
        from sync_known_populated [where fs = fs and h = h, OF fs this]
        show ?thesis by simp
      next
        case False
        let ?scan = "scan_groups E h ?uid es' (posts ?d2) (files_by_tweet_id es') []"
        from False run have fsr: "full_scan E fs h ?uid 0 ?d2 = (Inr (a, b), d1)"
          by (simp add: sync_unfold [where fs = fs and h = h, OF fs])
        then obtain pending where sc: "?scan = Inr pending"
          by (cases ?scan) (simp_all add: full_scan_unfold [where fs = fs and h = h, OF fs])
        from fsr sc have a: "a = length pending"
          and d1: "d1 = (if list_all (insert_ok E) pending
                         then ?d2\<lparr>posts := posts ?d2 @ map (stored_row E) pending\<rparr> else ?d2)"
          by (simp_all add: full_scan_unfold [where fs = fs and h = h, OF fs])
        have p1: "posts d1 = posts d @ map (stored_row E) pending"
        proof (cases "list_all (insert_ok E) pending")
          case True
          with d1 show ?thesis by simp
        next
          case False
          with d1 have "posts d1 = posts d" by simp
          with len a have "pending = []" by simp
          with \<open>posts d1 = posts d\<close> show ?thesis by simp
        qed
        have "\<forall>(tweet_id, fl)\<in>set (files_by_tweet_id es'). tweet_id \<in> p_id ` set (posts d1)"
        proof (clarify)
          fix tweet_id fl
          assume "(tweet_id, fl) \<in> set (files_by_tweet_id es')"
          from scan_groups_covers [OF sc this]
          have "tweet_id \<in> p_id ` set (posts d @ pending)" by simp
          moreover have "map p_id (posts d1) = map p_id (posts d @ pending)"
            using p1 by (simp add: comp_def)
          then have "p_id ` set (posts d1) = p_id ` set (posts d @ pending)"
            by (metis set_map)
          ultimately show "tweet_id \<in> p_id ` set (posts d1)" by simp
        qed
        from sync_nothing_to_add [where fs = fs and h = h, OF fs this]
        show ?thesis .
      qed
    qed
  qed
  then show "fst (process_and_cache_user_posts E fs h False d1) = Inr (0, 0)"
    and "posts (snd (process_and_cache_user_posts E fs h False d1)) = posts d1" by auto
qed

theorem sync_idempotent_witness:
  "fst (process_and_cache_user_posts example_env only_alice ''alice'' False empty_db) = Inr (1, 0) \<and>
   length (posts (snd (process_and_cache_user_posts example_env only_alice ''alice'' False empty_db)))
     = length (posts empty_db) + 1 \<and>
   fst (process_and_cache_user_posts example_env only_alice ''alice'' False
         (snd (process_and_cache_user_posts example_env only_alice ''alice'' False empty_db)))
     = Inr (0, 0) \<and>
   posts (snd (process_and_cache_user_posts example_env only_alice ''alice'' False
         (snd (process_and_cache_user_posts example_env only_alice ''alice'' False empty_db))))
     = posts (snd (process_and_cache_user_posts example_env only_alice ''alice'' False empty_db)) \<and>
   find_user stale_db ''alice'' = Some (new_user 1 ''alice'') \<and>
   user_posts stale_db (u_id (new_user 1 ''alice'')) \<noteq> [] \<and>
   process_and_cache_user_posts example_env only_alice ''alice'' False stale_db
     = (Inr (0, 0), refreshed_db example_env alice_dir ''alice'' stale_db) \<and>
   posts (refreshed_db example_env alice_dir ''alice'' stale_db) = posts stale_db"
proof -
  let ?r = "process_and_cache_user_posts example_env only_alice ''alice'' False empty_db"
  have f: "fst ?r = Inr (1, 0)" by code_simp
  have l: "length (posts (snd ?r)) = length (posts empty_db) + 1" by code_simp
  from f have run: "?r = (Inr (1, 0), snd ?r)" by (metis prod.collapse)
  note first = sync_idempotent [where E = example_env and fs = only_alice and h = "''alice''"
      and d = empty_db and a = 1 and b = 0 and ?d1.0 = "snd ?r", THEN conjunct1, THEN mp,
      OF conjI [OF run l]]
  have h1: "only_alice ''alice'' = Some (Some alice_dir)" by code_simp
  have h2: "find_user stale_db ''alice'' = Some (new_user 1 ''alice'')" by code_simp
  have h3: "user_posts stale_db (u_id (new_user 1 ''alice'')) \<noteq> []" by code_simp
  note second = sync_idempotent [where E = example_env and fs = only_alice and h = "''alice''"
      and d = stale_db and es = alice_dir and u = "new_user 1 ''alice''", THEN conjunct2, THEN mp,
      OF conjI [OF h1 conjI [OF h2 h3]]]
  show ?thesis
    by (intro conjI) (rule f l first [THEN conjunct1] first [THEN conjunct2] h2 h3
        second [THEN conjunct1] second [THEN conjunct2])+
qed









text \<open>
  The case the statement of the full rebuild leaves out: a sync that does not return. The
  modification time of a file can lie beyond the year 9999; the conversion then raises
  a ValueError, which the handler of the fourth timestamp source does not catch, unlike
  that of the third. The rebuild has committed the deletion by then, and the author is
  left without posts.
\<close>

lemma rebuild_raises_on_late_modification_time:
  "map p_id (user_posts stale_db 1) = [''999''] \<and>
   fst (process_and_cache_user_posts example_env late_archive ''alice'' True stale_db)
     = Inl ValueError \<and>
   posts (snd (process_and_cache_user_posts example_env late_archive ''alice'' True stale_db)) = []"
  by code_simp

section \<open>End to end\<close>








end
